theory Spec2Isabelle
  imports Main
begin

section \<open>The Entity class of climada (climada/entity/entity.py)\<close>

text \<open>
  \<^verbatim>\<open>Entity\<close> bundles four collections: exposures, impact functions, measures and
  discount rates. The four collection classes live in other modules; here they are
  collaborators, given as a record of functions (\<open>collab\<close>). The model keeps a store of
  objects, the instance dictionary of the Entity, and a trace of the calls made to the
  collaborators and to the logger.
\<close>

subsection \<open>Values, classes, objects\<close>

text \<open>The four collection classes imported by entity.py.\<close>

datatype coll = Exposures | ImpactFuncs | Measures | DiscRates

text \<open>
  The class of an object of the store: one of the four collection classes, or any other
  class, given by its name and by the collection classes among its ancestors (none for
  an unrelated class, several for a class that inherits from several collections).
\<close>

datatype pyclass = Base coll | Derived string "coll list"

fun issubclass :: "pyclass \<Rightarrow> coll \<Rightarrow> bool" where
  "issubclass (Base c) k = (c = k)"
| "issubclass (Derived n cs) k = (k \<in> set cs)"

text \<open>
  Class objects as values, as far as the assignment to \<^verbatim>\<open>__class__\<close> of an Entity tells
  them apart: the class Entity itself; a class written in Python with the default
  instance layout and no \<^verbatim>\<open>__setattr__\<close> of its own (\<^verbatim>\<open>class Plain: pass\<close>), which
  the interpreter accepts as the new class of an Entity; and a class it refuses (a
  built-in type, or a class with another layout).
\<close>

datatype pytype = EntityType | PlainType string | RigidType string

type_synonym addr = nat

text \<open>
  Python values that reach this file: \<open>None\<close>, strings, integers, lists (a file name is
  a string or a list of strings), dictionaries with string keys (given by their items),
  class objects, and references to objects of the store.
\<close>

datatype pyval =
    PyNone
  | PyStr string
  | PyInt int
  | PyList "pyval list"
  | PyDict "(string \<times> pyval) list"
  | PyType pytype
  | Ref addr

datatype error = ValueError | TypeError | AttributeError | OtherError string

text \<open>An object of the store: its class and its contents, which this file never inspects.\<close>

record 'd obj =
  cls :: pyclass
  data :: 'd

text \<open>What the code does to the outside: logger calls and calls to the collaborators.\<close>

datatype event =
    Logged string
  | Constructed coll "pyval list"
  | ReadCalled addr pyval pyval
  | CheckCalled addr

text \<open>
  The state: the store (an address is an index, a new object is appended), the instance
  dictionary of the Entity (its \<^verbatim>\<open>__dict__\<close>), the trace, and the class of the
  instance, which is Entity unless an assignment to \<^verbatim>\<open>__class__\<close> has changed it.
\<close>

record 'd state =
  heap :: "'d obj list"
  attrs :: "string \<rightharpoonup> pyval"
  trace :: "event list"
  klass :: pytype

text \<open>
  The collaborators. \<open>ENT_DEF_XLS\<close> is the constant of climada.util.config.
  \<open>new_empty c\<close> is the contents of \<open>C()\<close>; \<open>new_from_file c f\<close> is the contents of
  \<open>C(f)\<close>, or the error it raises. \<open>read_of\<close> and \<open>check_of\<close> are the methods
  \<open>read(file_name, description)\<close> and \<open>check()\<close> of an object of the given class with
  the given contents: they return the error raised, if any, and the contents the
  object is left with (a method that raises may have changed the object before).
\<close>

record 'd collab =
  ENT_DEF_XLS :: pyval
  new_empty :: "coll \<Rightarrow> 'd"
  new_from_file :: "coll \<Rightarrow> pyval \<Rightarrow> error + 'd"
  read_of :: "pyclass \<Rightarrow> 'd \<Rightarrow> pyval \<Rightarrow> pyval \<Rightarrow> error option \<times> 'd"
  check_of :: "pyclass \<Rightarrow> 'd \<Rightarrow> error option \<times> 'd"

text \<open>
  A statement takes the state and returns the error raised, if any, with the state it
  leaves. A sequence of statements stops at the first one that raises.
\<close>

type_synonym 'd stmt = "'d state \<Rightarrow> error option \<times> 'd state"

fun run :: "'d stmt list \<Rightarrow> 'd stmt" where
  "run [] s = (None, s)"
| "run (c # cs) s = (case c s of (None, s') \<Rightarrow> run cs s' | (Some e, s') \<Rightarrow> (Some e, s'))"

subsection \<open>Attribute assignment: \<^verbatim>\<open>Entity.__setattr__\<close>\<close>

text \<open>\<^verbatim>\<open>isinstance(value, C)\<close>: only a reference to an object whose class is C or derives from it.\<close>

fun isinstance :: "'d obj list \<Rightarrow> pyval \<Rightarrow> coll \<Rightarrow> bool" where
  "isinstance h (Ref a) c = (a < length h \<and> issubclass (cls (h ! a)) c)"
| "isinstance h PyNone c = False"
| "isinstance h (PyStr x) c = False"
| "isinstance h (PyInt i) c = False"
| "isinstance h (PyList xs) c = False"
| "isinstance h (PyDict kvs) c = False"
| "isinstance h (PyType t) c = False"

text \<open>\<^verbatim>\<open>LOGGER.error(msg)\<close>\<close>

definition log_error :: "string \<Rightarrow> 'd state \<Rightarrow> 'd state" where
  "log_error msg s = s\<lparr>trace := trace s @ [Logged msg]\<rparr>"

text \<open>
  \<^verbatim>\<open>super().__setattr__(name, value)\<close>, that is \<^verbatim>\<open>object.__setattr__\<close>. The class Entity
  defines no property, so the only names the interpreter does not store in the instance
  dictionary are its own three: \<^verbatim>\<open>__class__\<close> takes a class with the layout of the
  instance and makes it the class of the object, and raises TypeError for anything else;
  \<^verbatim>\<open>__dict__\<close> takes a dictionary, which replaces the whole instance dictionary (as
  \<^verbatim>\<open>dict(items)\<close> builds it: a later item wins), and raises TypeError for anything
  else; \<^verbatim>\<open>__weakref__\<close> is not writable (AttributeError). For every other name the entry
  of the instance dictionary is set.
\<close>

definition object_setattr :: "string \<Rightarrow> pyval \<Rightarrow> 'd stmt" where
  "object_setattr name v s =
     (if name = ''__class__'' then
        (case v of
           PyType EntityType \<Rightarrow> (None, s\<lparr>klass := EntityType\<rparr>)
         | PyType (PlainType n) \<Rightarrow> (None, s\<lparr>klass := PlainType n\<rparr>)
         | _ \<Rightarrow> (Some TypeError, s))
      else if name = ''__dict__'' then
        (case v of
           PyDict items \<Rightarrow> (None, s\<lparr>attrs := map_of (rev items)\<rparr>)
         | _ \<Rightarrow> (Some TypeError, s))
      else if name = ''__weakref__'' then (Some AttributeError, s)
      else (None, s\<lparr>attrs := (attrs s)(name \<mapsto> v)\<rparr>))"

definition setattr :: "string \<Rightarrow> pyval \<Rightarrow> 'd stmt" where
  "setattr name v s =
     (if name = ''exposures'' then
        (if \<not> isinstance (heap s) v Exposures
         then (Some ValueError, log_error ''Input value is not (sub)class of Exposures.'' s)
         else object_setattr name v s)
      else if name = ''impact_funcs'' then
        (if \<not> isinstance (heap s) v ImpactFuncs
         then (Some ValueError, log_error ''Input value is not (sub)class of ImpactFuncs.'' s)
         else object_setattr name v s)
      else if name = ''measures'' then
        (if \<not> isinstance (heap s) v Measures
         then (Some ValueError, log_error ''Input value is not (sub)class of Measures.'' s)
         else object_setattr name v s)
      else if name = ''disc_rates'' then
        (if \<not> isinstance (heap s) v DiscRates
         then (Some ValueError, log_error ''Input value is not (sub)class of DiscRates.'' s)
         else object_setattr name v s)
      else object_setattr name v s)"

text \<open>
  The statement \<^verbatim>\<open>obj.<name> = value\<close> on the instance: the \<^verbatim>\<open>__setattr__\<close> of its
  class is called, that of Entity as long as the instance is an Entity, that of
  \<^verbatim>\<open>object\<close> once its class is a plain one.
\<close>

definition assign :: "string \<Rightarrow> pyval \<Rightarrow> 'd stmt" where
  "assign name v s = (if klass s = EntityType then setattr name v s else object_setattr name v s)"

subsection \<open>Constructing collections and calling their methods\<close>

text \<open>\<^verbatim>\<open>C()\<close>: a new object of class C, empty.\<close>

definition construct :: "'d collab \<Rightarrow> coll \<Rightarrow> 'd state \<Rightarrow> pyval \<times> 'd state" where
  "construct X c s =
     (Ref (length (heap s)),
      s\<lparr>heap := heap s @ [\<lparr>cls = Base c, data = new_empty X c\<rparr>],
        trace := trace s @ [Constructed c []]\<rparr>)"

text \<open>\<^verbatim>\<open>C(file_name)\<close>: a new object of class C filled from the file, unless that raises.\<close>

definition construct_from :: "'d collab \<Rightarrow> coll \<Rightarrow> pyval \<Rightarrow> 'd state \<Rightarrow> (error + pyval) \<times> 'd state" where
  "construct_from X c f s =
     (case new_from_file X c f of
        Inl e \<Rightarrow> (Inl e, s\<lparr>trace := trace s @ [Constructed c [f]]\<rparr>)
      | Inr d \<Rightarrow>
          (Inr (Ref (length (heap s))),
           s\<lparr>heap := heap s @ [\<lparr>cls = Base c, data = d\<rparr>],
             trace := trace s @ [Constructed c [f]]\<rparr>))"

text \<open>
  \<^verbatim>\<open>self.def_file\<close>: the instance dictionary first, then the class attribute
  \<^verbatim>\<open>def_file = ENT_DEF_XLS\<close>.
\<close>

definition def_file :: "'d collab \<Rightarrow> 'd state \<Rightarrow> pyval" where
  "def_file X s = (case attrs s ''def_file'' of Some v \<Rightarrow> v | None \<Rightarrow> ENT_DEF_XLS X)"

text \<open>\<^verbatim>\<open>self.<name> = C()\<close>\<close>

definition assign_new :: "'d collab \<Rightarrow> string \<Rightarrow> coll \<Rightarrow> 'd stmt" where
  "assign_new X name c s = (case construct X c s of (v, s') \<Rightarrow> setattr name v s')"

text \<open>\<^verbatim>\<open>self.<name> = C(self.def_file)\<close>\<close>

definition assign_default :: "'d collab \<Rightarrow> string \<Rightarrow> coll \<Rightarrow> 'd stmt" where
  "assign_default X name c s =
     (case construct_from X c (def_file X s) s of
        (Inl e, s') \<Rightarrow> (Some e, s')
      | (Inr v, s') \<Rightarrow> setattr name v s')"

text \<open>
  \<^verbatim>\<open>self.<name>.read(file_name, description)\<close> and \<^verbatim>\<open>self.<name>.check()\<close>: the
  attribute is looked up in the instance dictionary (the class Entity has no attribute
  of these names), and the method of the object it refers to is called. A missing
  attribute, or a value that is no object, raises AttributeError; a reference outside
  the store does not exist in Python and is treated the same way.
\<close>

definition call_read :: "'d collab \<Rightarrow> string \<Rightarrow> pyval \<Rightarrow> pyval \<Rightarrow> 'd stmt" where
  "call_read X name file_name description s =
     (case attrs s name of
        Some (Ref a) \<Rightarrow>
          (if a < length (heap s) then
             (case read_of X (cls (heap s ! a)) (data (heap s ! a)) file_name description of
                (r, d') \<Rightarrow>
                  (r, s\<lparr>heap := (heap s)[a := (heap s ! a)\<lparr>data := d'\<rparr>],
                        trace := trace s @ [ReadCalled a file_name description]\<rparr>))
           else (Some AttributeError, s))
      | _ \<Rightarrow> (Some AttributeError, s))"

definition call_check :: "'d collab \<Rightarrow> string \<Rightarrow> 'd stmt" where
  "call_check X name s =
     (case attrs s name of
        Some (Ref a) \<Rightarrow>
          (if a < length (heap s) then
             (case check_of X (cls (heap s ! a)) (data (heap s ! a)) of
                (r, d') \<Rightarrow>
                  (r, s\<lparr>heap := (heap s)[a := (heap s ! a)\<lparr>data := d'\<rparr>],
                        trace := trace s @ [CheckCalled a]\<rparr>))
           else (Some AttributeError, s))
      | _ \<Rightarrow> (Some AttributeError, s))"

subsection \<open>The methods of Entity\<close>

text \<open>
  \<^verbatim>\<open>Entity.read(self, file_name, description=None)\<close>: the eight statements of
  its body, run in sequence.
\<close>

definition read_body :: "'d collab \<Rightarrow> pyval \<Rightarrow> pyval \<Rightarrow> 'd stmt list" where
  "read_body X file_name description =
     [assign_new X ''exposures'' Exposures,
      call_read X ''exposures'' file_name description,
      assign_new X ''disc_rates'' DiscRates,
      call_read X ''disc_rates'' file_name description,
      assign_new X ''impact_funcs'' ImpactFuncs,
      call_read X ''impact_funcs'' file_name description,
      assign_new X ''measures'' Measures,
      call_read X ''measures'' file_name description]"

definition read :: "'d collab \<Rightarrow> pyval \<Rightarrow> pyval \<Rightarrow> 'd stmt" where
  "read X file_name description = run (read_body X file_name description)"

text \<open>\<^verbatim>\<open>Entity.check(self)\<close>: four statements.\<close>

definition check_body :: "'d collab \<Rightarrow> 'd stmt list" where
  "check_body X =
     [call_check X ''disc_rates'',
      call_check X ''exposures'',
      call_check X ''impact_funcs'',
      call_check X ''measures'']"

definition check :: "'d collab \<Rightarrow> 'd stmt" where
  "check X = run (check_body X)"

text \<open>\<^verbatim>\<open>Entity.__init__(self, file_name=None, description=None)\<close>\<close>

definition init :: "'d collab \<Rightarrow> pyval \<Rightarrow> pyval \<Rightarrow> 'd stmt" where
  "init X file_name description =
     (if file_name = PyNone then
        run [assign_default X ''exposures'' Exposures,
             assign_default X ''impact_funcs'' ImpactFuncs,
             assign_default X ''measures'' Measures,
             assign_default X ''disc_rates'' DiscRates]
      else read X file_name description)"

text \<open>
  \<^verbatim>\<open>Entity(file_name, description)\<close>: \<^verbatim>\<open>__init__\<close> runs on a new instance of the
  class Entity, whose dictionary is empty. When it raises, the caller gets no Entity.
\<close>

definition Entity :: "'d collab \<Rightarrow> pyval \<Rightarrow> pyval \<Rightarrow> 'd stmt" where
  "Entity X file_name description s =
     init X file_name description (s\<lparr>attrs := Map.empty, klass := EntityType\<rparr>)"

subsection \<open>Notions used by the properties\<close>

text \<open>
  The collection class that \<^verbatim>\<open>__setattr__\<close> requires for a guarded attribute name,
  as the class documents its four attributes.
\<close>

definition required :: "string \<Rightarrow> coll option" where
  "required name =
     (if name = ''exposures'' then Some Exposures
      else if name = ''impact_funcs'' then Some ImpactFuncs
      else if name = ''measures'' then Some Measures
      else if name = ''disc_rates'' then Some DiscRates
      else None)"

text \<open>The attribute \<open>name\<close> is set and holds an instance of the class \<open>c\<close>.\<close>

definition holds :: "'d state \<Rightarrow> string \<Rightarrow> coll \<Rightarrow> bool" where
  "holds s name c = (case attrs s name of Some v \<Rightarrow> isinstance (heap s) v c | None \<Rightarrow> False)"

text \<open>The invariant of the data model: each of the four attributes holds an instance of its class.\<close>

definition well_typed :: "'d state \<Rightarrow> bool" where
  "well_typed s \<longleftrightarrow>
     holds s ''exposures'' Exposures \<and> holds s ''impact_funcs'' ImpactFuncs \<and>
     holds s ''measures'' Measures \<and> holds s ''disc_rates'' DiscRates"

text \<open>
  The states of an Entity after its construction: the state a successful construction
  leaves, and from there the state after the first \<open>k\<close> statements of \<^verbatim>\<open>read\<close> or of
  \<^verbatim>\<open>check\<close> (all of them when \<open>k\<close> is their number or more; the run stops where a
  statement raises), and the state after an attribute assignment, raised or not, to any
  name but \<^verbatim>\<open>__dict__\<close> and \<^verbatim>\<open>__class__\<close>.
\<close>

inductive reachable :: "'d collab \<Rightarrow> 'd state \<Rightarrow> bool" for X :: "'d collab" where
  constructed: "Entity X file_name description s0 = (None, s) \<Longrightarrow> reachable X s"
| in_read: "reachable X s \<Longrightarrow> reachable X (snd (run (take k (read_body X file_name description)) s))"
| in_check: "reachable X s \<Longrightarrow> reachable X (snd (run (take k (check_body X)) s))"
| assigned: "reachable X s \<Longrightarrow> name \<noteq> ''__dict__'' \<Longrightarrow> name \<noteq> ''__class__'' \<Longrightarrow>
             reachable X (snd (assign name v s))"

text \<open>
  What a fresh instance of the collection \<open>c\<close> gives when its own \<^verbatim>\<open>read\<close> is called
  with a file name and a description: the error raised, if any, and the contents it is
  left with.
\<close>

definition own_read :: "'d collab \<Rightarrow> coll \<Rightarrow> pyval \<Rightarrow> pyval \<Rightarrow> error option \<times> 'd" where
  "own_read X c file_name description = read_of X (Base c) (new_empty X c) file_name description"

text \<open>The order in which \<^verbatim>\<open>read\<close> goes through the collections, and \<^verbatim>\<open>check\<close>.\<close>

definition read_order :: "(string \<times> coll) list" where
  "read_order = [(''exposures'', Exposures), (''disc_rates'', DiscRates),
                 (''impact_funcs'', ImpactFuncs), (''measures'', Measures)]"

definition check_order :: "string list" where
  "check_order = [''disc_rates'', ''exposures'', ''impact_funcs'', ''measures'']"

text \<open>
  What the \<^verbatim>\<open>check\<close> of the collection held by the attribute \<open>name\<close> reports in the
  state \<open>s\<close>: the error it raises, if any.
\<close>

definition own_check :: "'d collab \<Rightarrow> 'd state \<Rightarrow> string \<Rightarrow> error option" where
  "own_check X s name =
     (case attrs s name of
        Some (Ref a) \<Rightarrow> fst (check_of X (cls (heap s ! a)) (data (heap s ! a)))
      | _ \<Rightarrow> Some AttributeError)"

text \<open>The calls of \<^verbatim>\<open>check\<close> on the objects that the attributes \<open>names\<close> refer to, in order.\<close>

definition check_calls :: "'d state \<Rightarrow> string list \<Rightarrow> event list" where
  "check_calls s names =
     concat (map (\<lambda>name. case attrs s name of Some (Ref a) \<Rightarrow> [CheckCalled a] | _ \<Rightarrow> []) names)"

text \<open>
  In the state \<open>s'\<close>, the attribute \<open>name\<close> refers to the object \<open>ob\<close>, and that
  object has been created since the state \<open>s\<close>.
\<close>

definition holds_new :: "'d state \<Rightarrow> 'd state \<Rightarrow> string \<Rightarrow> 'd obj \<Rightarrow> bool" where
  "holds_new s s' name ob =
     (case attrs s' name of
        Some (Ref a) \<Rightarrow> length (heap s) \<le> a \<and> a < length (heap s') \<and> heap s' ! a = ob
      | _ \<Rightarrow> False)"

text \<open>
  The calls that \<^verbatim>\<open>read\<close> makes when no statement raises, \<open>n\<close> being the number of
  objects in the store before.
\<close>

definition read_calls :: "nat \<Rightarrow> pyval \<Rightarrow> pyval \<Rightarrow> event list" where
  "read_calls n file_name description =
     [Constructed Exposures [], ReadCalled n file_name description,
      Constructed DiscRates [], ReadCalled (n + 1) file_name description,
      Constructed ImpactFuncs [], ReadCalled (n + 2) file_name description,
      Constructed Measures [], ReadCalled (n + 3) file_name description]"

text \<open>
  The state \<open>s'\<close> differs from \<open>s\<close> by calls of \<^verbatim>\<open>check\<close> only: same instance
  dictionary, same objects with the same classes.
\<close>

definition only_checks :: "'d state \<Rightarrow> 'd state \<Rightarrow> bool" where
  "only_checks s s' \<longleftrightarrow>
     attrs s' = attrs s \<and> map cls (heap s') = map cls (heap s) \<and>
     (\<exists>evs. trace s' = trace s @ evs \<and> (\<forall>ev \<in> set evs. \<exists>a. ev = CheckCalled a))"

subsection \<open>Auxiliary states\<close>

text \<open>A new object is stored and the attribute \<open>name\<close> refers to it.\<close>

definition put :: "string \<Rightarrow> 'd obj \<Rightarrow> event list \<Rightarrow> 'd state \<Rightarrow> 'd state" where
  "put name ob evs s =
     s\<lparr>heap := heap s @ [ob], attrs := (attrs s)(name \<mapsto> Ref (length (heap s))),
       trace := trace s @ evs\<rparr>"

text \<open>One collection of \<^verbatim>\<open>read\<close>: the assignment of a fresh instance, then its read.\<close>

definition loaded :: "'d collab \<Rightarrow> pyval \<Rightarrow> pyval \<Rightarrow> string \<Rightarrow> coll \<Rightarrow> 'd state \<Rightarrow> 'd state" where
  "loaded X f d name c s =
     put name \<lparr>cls = Base c, data = snd (own_read X c f d)\<rparr>
       [Constructed c [], ReadCalled (length (heap s)) f d] s"

text \<open>The state after \<^verbatim>\<open>check\<close> has been called on the object at \<open>a\<close>.\<close>

definition checked :: "'d collab \<Rightarrow> addr \<Rightarrow> 'd state \<Rightarrow> 'd state" where
  "checked X a s =
     s\<lparr>heap := (heap s)[a := (heap s ! a)\<lparr>data := snd (check_of X (cls (heap s ! a)) (data (heap s ! a)))\<rparr>],
       trace := trace s @ [CheckCalled a]\<rparr>"

text \<open>The four statements of \<^verbatim>\<open>__init__\<close> when no file name is given.\<close>

definition default_body :: "'d collab \<Rightarrow> 'd stmt list" where
  "default_body X =
        [assign_default X ''exposures'' Exposures,
         assign_default X ''impact_funcs'' ImpactFuncs,
         assign_default X ''measures'' Measures,
         assign_default X ''disc_rates'' DiscRates]"

subsection \<open>Examples\<close>

text \<open>
  A collaborator whose collections record the files they have read: a file that is
  missing raises before anything is read, the discount rates raise on one file after
  recording it, and \<^verbatim>\<open>check\<close> marks the collection and rejects exposures read from
  one file. A store with one object, an Entity built from the default file, and an
  Entity built from a given file.
\<close>

definition demo :: "pyval list collab" where
  "demo =
     \<lparr>ENT_DEF_XLS = PyStr ''entity_default.xls'',
      new_empty = (\<lambda>c. []),
      new_from_file = (\<lambda>c f. if f = PyStr ''missing.xls'' then Inl (OtherError ''no file'') else Inr [f]),
      read_of = (\<lambda>k d f desc.
         if f = PyStr ''missing.xls'' then (Some (OtherError ''no file''), d)
         else if f = PyStr ''bad_rates.xls'' \<and> k = Base DiscRates then (Some ValueError, d @ [f])
         else (None, d @ [f, desc])),
      check_of = (\<lambda>k d. (if PyStr ''negative.xls'' \<in> set d \<and> k = Base Exposures then Some ValueError else None,
                          d @ [PyStr ''checked'']))\<rparr>"

definition blank :: "pyval list state" where
  "blank = \<lparr>heap = [\<lparr>cls = Derived ''MyMeasures'' [Measures], data = []\<rparr>], attrs = Map.empty,
            trace = [], klass = EntityType\<rparr>"

definition started :: "pyval list state" where
  "started = snd (Entity demo PyNone PyNone blank)"

definition filled :: "pyval \<Rightarrow> pyval list state" where
  "filled file_name = snd (Entity demo file_name (PyStr ''2018'') blank)"

text \<open>
  A collaborator whose \<^verbatim>\<open>check\<close> accepts a collection once and marks it, and an Entity
  whose exposures and discount rates are one object, of a class that inherits from both
  collections.
\<close>

definition once :: "pyval list collab" where
  "once = demo\<lparr>check_of := (\<lambda>k d. (if PyStr ''checked'' \<in> set d then Some ValueError else None,
                                    d @ [PyStr ''checked'']))\<rparr>"

definition shared :: "pyval list state" where
  "shared =
     \<lparr>heap = [\<lparr>cls = Derived ''Both'' [Exposures, DiscRates], data = []\<rparr>,
              \<lparr>cls = Base ImpactFuncs, data = []\<rparr>,
              \<lparr>cls = Base Measures, data = []\<rparr>],
      attrs = [''exposures'' \<mapsto> Ref 0, ''disc_rates'' \<mapsto> Ref 0,
               ''impact_funcs'' \<mapsto> Ref 1, ''measures'' \<mapsto> Ref 2],
      trace = [], klass = EntityType\<rparr>"

section \<open>Auxiliary lemmas\<close>

subsection \<open>Attribute assignment\<close>

lemma required_cases:
  "required name = Some c \<longleftrightarrow>
     (name = ''exposures'' \<and> c = Exposures) \<or> (name = ''impact_funcs'' \<and> c = ImpactFuncs) \<or>
     (name = ''measures'' \<and> c = Measures) \<or> (name = ''disc_rates'' \<and> c = DiscRates)"
  unfolding required_def by (simp add: eq_commute [of _ c])

lemma required_None:
  "required name = None \<longleftrightarrow>
     name \<noteq> ''exposures'' \<and> name \<noteq> ''impact_funcs'' \<and> name \<noteq> ''measures'' \<and> name \<noteq> ''disc_rates''"
  unfolding required_def by simp

lemma setattr_ok:
  "required name = Some c \<Longrightarrow> isinstance (heap s) v c \<Longrightarrow>
   setattr name v s = (None, s\<lparr>attrs := (attrs s)(name \<mapsto> v)\<rparr>)"
  unfolding required_cases by (elim disjE conjE) (simp_all add: setattr_def object_setattr_def)

lemma setattr_bad:
  "required name = Some c \<Longrightarrow> \<not> isinstance (heap s) v c \<Longrightarrow>
   \<exists>msg. setattr name v s = (Some ValueError, log_error msg s)"
  unfolding required_cases by (elim disjE conjE) (simp_all add: setattr_def, blast+)

lemma setattr_free:
  "required name = None \<Longrightarrow> setattr name v s = object_setattr name v s"
  by (simp add: required_None setattr_def)

lemma object_setattr_plain:
  "name \<noteq> ''__class__'' \<Longrightarrow> name \<noteq> ''__dict__'' \<Longrightarrow> name \<noteq> ''__weakref__'' \<Longrightarrow>
   object_setattr name v s = (None, s\<lparr>attrs := (attrs s)(name \<mapsto> v)\<rparr>)"
  by (simp add: object_setattr_def)

text \<open>
  What \<^verbatim>\<open>object.__setattr__\<close> can do for a name other than \<^verbatim>\<open>__dict__\<close>: set the
  entry, or leave the dictionary, the store and the trace as they are.
\<close>

lemma object_setattr_outcome:
  assumes "name \<noteq> ''__dict__''"
  shows "(name \<noteq> ''__class__'' \<and> object_setattr name v s = (None, s\<lparr>attrs := (attrs s)(name \<mapsto> v)\<rparr>)) \<or>
         (\<exists>r t. object_setattr name v s = (r, s\<lparr>klass := t\<rparr>)) \<or>
         (\<exists>r. object_setattr name v s = (r, s))"
proof (cases "name = ''__class__''")
  case True
  then show ?thesis
    by (auto simp: object_setattr_def split: pyval.splits pytype.splits)
next
  case False
  with assms show ?thesis
    by (cases "name = ''__weakref__''") (simp_all add: object_setattr_def)
qed

text \<open>The outcomes of an assignment to a name other than \<^verbatim>\<open>__dict__\<close>.\<close>

lemma setattr_outcome:
  assumes "name \<noteq> ''__dict__''"
  shows "(name \<noteq> ''__class__'' \<and> setattr name v s = (None, s\<lparr>attrs := (attrs s)(name \<mapsto> v)\<rparr>) \<and>
            (\<forall>c. required name = Some c \<longrightarrow> isinstance (heap s) v c)) \<or>
         (\<exists>msg. setattr name v s = (Some ValueError, log_error msg s)) \<or>
         (\<exists>r t. setattr name v s = (r, s\<lparr>klass := t\<rparr>)) \<or>
         (\<exists>r. setattr name v s = (r, s))"
proof (cases "required name")
  case None
  with object_setattr_outcome [OF assms, of v s] show ?thesis
    by (auto simp: setattr_free)
next
  case (Some c)
  then have n: "name \<noteq> ''__class__''"
    by (auto simp: required_cases)
  show ?thesis
  proof (cases "isinstance (heap s) v c")
    case True
    with Some n show ?thesis by (simp add: setattr_ok)
  next
    case False
    with Some show ?thesis using setattr_bad [of name c s v] by simp
  qed
qed

subsection \<open>The invariant is kept by every statement\<close>

lemma isinstance_append: "isinstance h v c \<Longrightarrow> isinstance (h @ xs) v c"
  by (cases v) (simp_all add: nth_append)

lemma isinstance_set_data: "isinstance (h[a := (h ! a)\<lparr>data := d\<rparr>]) v c = isinstance h v c"
proof (cases v)
  case (Ref x)
  show ?thesis
  proof (cases "x = a")
    case True
    with Ref show ?thesis by auto
  next
    case False
    with Ref show ?thesis by auto
  qed
qed simp_all

lemma holds_log_error: "holds (log_error msg s) name c = holds s name c"
  by (simp add: holds_def log_error_def split: option.splits)

lemma holds_klass: "holds (s\<lparr>klass := t\<rparr>) name c = holds s name c"
  by (simp add: holds_def split: option.splits)

lemma holds_setattr:
  assumes "required name = Some c" and "holds s name c" and "n \<noteq> ''__dict__''"
  shows "holds (snd (setattr n v s)) name c"
proof -
  from setattr_outcome [OF assms(3), of v s] show ?thesis
  proof (elim disjE conjE exE)
    assume eq: "setattr n v s = (None, s\<lparr>attrs := (attrs s)(n \<mapsto> v)\<rparr>)"
      and inst: "\<forall>c. required n = Some c \<longrightarrow> isinstance (heap s) v c"
    show ?thesis
    proof (cases "n = name")
      case True
      with inst assms(1) have "isinstance (heap s) v c" by simp
      with eq True show ?thesis by (simp add: holds_def split: option.splits)
    next
      case False
      with eq assms(2) show ?thesis by (simp add: holds_def split: option.splits)
    qed
  next
    fix msg assume "setattr n v s = (Some ValueError, log_error msg s)"
    with assms(2) show ?thesis by (simp add: holds_log_error)
  next
    fix r t assume "setattr n v s = (r, s\<lparr>klass := t\<rparr>)"
    with assms(2) show ?thesis by (simp add: holds_klass)
  next
    fix r assume "setattr n v s = (r, s)"
    with assms(2) show ?thesis by simp
  qed
qed

lemma holds_construct: "holds s name c \<Longrightarrow> holds (snd (construct X k s)) name c"
  by (auto simp: holds_def construct_def isinstance_append split: option.splits)

lemma holds_assign_new:
  "required name = Some c \<Longrightarrow> holds s name c \<Longrightarrow> n \<noteq> ''__dict__'' \<Longrightarrow>
   holds (snd (assign_new X n k s)) name c"
  using holds_setattr [of name c "snd (construct X k s)" n "fst (construct X k s)"]
  by (simp add: assign_new_def split_beta holds_construct)

lemma holds_call_read: "holds s name c \<Longrightarrow> holds (snd (call_read X n f d s)) name c"
  by (auto simp: holds_def call_read_def isinstance_set_data split: option.splits pyval.splits prod.splits)

lemma holds_call_check: "holds s name c \<Longrightarrow> holds (snd (call_check X n s)) name c"
  by (auto simp: holds_def call_check_def isinstance_set_data split: option.splits pyval.splits prod.splits)

lemma run_keeps:
  assumes "\<And>st s. st \<in> set cs \<Longrightarrow> P s \<Longrightarrow> P (snd (st s))" and "P s"
  shows "P (snd (run cs s))"
  using assms
proof (induction cs arbitrary: s)
  case Nil
  then show ?case by simp
next
  case (Cons c cs)
  have step: "P (snd (c s))" using Cons.prems by simp
  show ?case
  proof (cases "c s")
    case (Pair r s')
    with step have P': "P s'" by simp
    show ?thesis
    proof (cases r)
      case None
      have "P (snd (run cs s'))" using Cons.IH [of s'] Cons.prems(1) P' by simp
      with Pair None show ?thesis by simp
    next
      case (Some e)
      with Pair P' show ?thesis by simp
    qed
  qed
qed

lemma well_typed_setattr:
  "well_typed s \<Longrightarrow> n \<noteq> ''__dict__'' \<Longrightarrow> well_typed (snd (setattr n v s))"
  unfolding well_typed_def by (simp add: holds_setattr required_def)

lemma well_typed_assign_new:
  "well_typed s \<Longrightarrow> n \<noteq> ''__dict__'' \<Longrightarrow> well_typed (snd (assign_new X n k s))"
  unfolding well_typed_def by (simp add: holds_assign_new required_def)

lemma well_typed_call_read: "well_typed s \<Longrightarrow> well_typed (snd (call_read X n f d s))"
  unfolding well_typed_def by (simp add: holds_call_read)

lemma well_typed_call_check: "well_typed s \<Longrightarrow> well_typed (snd (call_check X n s))"
  unfolding well_typed_def by (simp add: holds_call_check)

lemma read_body_keeps:
  "st \<in> set (read_body X f d) \<Longrightarrow> well_typed s \<Longrightarrow> well_typed (snd (st s))"
  unfolding read_body_def
  by (auto simp: well_typed_assign_new well_typed_call_read)

lemma check_body_keeps:
  "st \<in> set (check_body X) \<Longrightarrow> well_typed s \<Longrightarrow> well_typed (snd (st s))"
  unfolding check_body_def
  by (auto simp: well_typed_call_check)

lemma well_typed_in_read:
  "well_typed s \<Longrightarrow> well_typed (snd (run (take k (read_body X f d)) s))"
  by (rule run_keeps [where P = well_typed]) (auto dest: in_set_takeD read_body_keeps)

lemma well_typed_in_check:
  "well_typed s \<Longrightarrow> well_typed (snd (run (take k (check_body X)) s))"
  by (rule run_keeps [where P = well_typed]) (auto dest: in_set_takeD check_body_keeps)

subsection \<open>The statements of read and of the default construction\<close>

lemma assign_new_eq:
  assumes "required name = Some c"
  shows "assign_new X name c s =
           (None, put name \<lparr>cls = Base c, data = new_empty X c\<rparr> [Constructed c []] s)"
proof -
  let ?s = "snd (construct X c s)"
  have "isinstance (heap ?s) (Ref (length (heap s))) c"
    by (simp add: construct_def)
  from setattr_ok [OF assms this] show ?thesis
    by (simp add: assign_new_def construct_def put_def)
qed

lemma assign_default_ok:
  assumes "required name = Some c" and "new_from_file X c (def_file X s) = Inr d"
  shows "assign_default X name c s =
           (None, put name \<lparr>cls = Base c, data = d\<rparr> [Constructed c [def_file X s]] s)"
proof -
  let ?s = "s\<lparr>heap := heap s @ [\<lparr>cls = Base c, data = d\<rparr>],
               trace := trace s @ [Constructed c [def_file X s]]\<rparr>"
  have "isinstance (heap ?s) (Ref (length (heap s))) c"
    by simp
  from setattr_ok [OF assms(1) this] assms(2) show ?thesis
    by (simp add: assign_default_def construct_from_def put_def)
qed

lemma assign_default_raises:
  assumes "new_from_file X c (def_file X s) = Inl e"
  shows "assign_default X name c s = (Some e, s\<lparr>trace := trace s @ [Constructed c [def_file X s]]\<rparr>)"
  using assms by (simp add: assign_default_def construct_from_def)

lemma call_read_put:
  "call_read X name f d (put name \<lparr>cls = Base c, data = new_empty X c\<rparr> evs s) =
     (fst (own_read X c f d),
      put name \<lparr>cls = Base c, data = snd (own_read X c f d)\<rparr>
        (evs @ [ReadCalled (length (heap s)) f d]) s)"
  by (simp add: call_read_def put_def own_read_def split_beta)

lemma read_pair:
  assumes "required name = Some c"
  shows "run (assign_new X name c # call_read X name f d # rest) s =
           (case fst (own_read X c f d) of
              None \<Rightarrow> run rest (loaded X f d name c s)
            | Some e \<Rightarrow> (Some e, loaded X f d name c s))"
  by (simp add: assign_new_eq [OF assms] call_read_put loaded_def split: option.splits)

lemma required_simps:
  "required ''exposures'' = Some Exposures" "required ''impact_funcs'' = Some ImpactFuncs"
  "required ''measures'' = Some Measures" "required ''disc_rates'' = Some DiscRates"
  by (simp_all add: required_def)

lemma read_unfold:
  "read X f d s =
     (let s1 = loaded X f d ''exposures'' Exposures s in
      case fst (own_read X Exposures f d) of Some e \<Rightarrow> (Some e, s1) | None \<Rightarrow>
     (let s2 = loaded X f d ''disc_rates'' DiscRates s1 in
      case fst (own_read X DiscRates f d) of Some e \<Rightarrow> (Some e, s2) | None \<Rightarrow>
     (let s3 = loaded X f d ''impact_funcs'' ImpactFuncs s2 in
      case fst (own_read X ImpactFuncs f d) of Some e \<Rightarrow> (Some e, s3) | None \<Rightarrow>
     (let s4 = loaded X f d ''measures'' Measures s3 in
      case fst (own_read X Measures f d) of Some e \<Rightarrow> (Some e, s4) | None \<Rightarrow> (None, s4)))))"
  unfolding read_def read_body_def Let_def
  by (simp add: read_pair required_simps del: run.simps(2) cong: option.case_cong)

lemma loaded_simps [simp]:
  "heap (loaded X f d name c s) = heap s @ [\<lparr>cls = Base c, data = snd (own_read X c f d)\<rparr>]"
  "attrs (loaded X f d name c s) = (attrs s)(name \<mapsto> Ref (length (heap s)))"
  "trace (loaded X f d name c s) = trace s @ [Constructed c [], ReadCalled (length (heap s)) f d]"
  by (simp_all add: loaded_def put_def)

lemma below_four: "i < 4 \<Longrightarrow> i = 0 \<or> i = 1 \<or> i = 2 \<or> i = (3::nat)"
  by arith

lemma below_cases:
  "j < (1::nat) \<longleftrightarrow> j = 0" "j < (2::nat) \<longleftrightarrow> j = 0 \<or> j = 1"
  "j < (3::nat) \<longleftrightarrow> j = 0 \<or> j = 1 \<or> j = 2" "j < (4::nat) \<longleftrightarrow> j = 0 \<or> j = 1 \<or> j = 2 \<or> j = 3"
  by arith+

lemma upto_cases:
  "j \<le> (0::nat) \<longleftrightarrow> j = 0" "j \<le> (1::nat) \<longleftrightarrow> j = 0 \<or> j = 1"
  "j \<le> (2::nat) \<longleftrightarrow> j = 0 \<or> j = 1 \<or> j = 2" "j \<le> (3::nat) \<longleftrightarrow> j = 0 \<or> j = 1 \<or> j = 2 \<or> j = 3"
  by arith+

lemma above_cases:
  "0 < j \<and> j < 4 \<longleftrightarrow> j = 1 \<or> j = 2 \<or> j = (3::nat)"
  "1 < j \<and> j < 4 \<longleftrightarrow> j = 2 \<or> j = (3::nat)"
  "2 < j \<and> j < 4 \<longleftrightarrow> j = (3::nat)"
  "3 < j \<and> j < 4 \<longleftrightarrow> False"
  by arith+

lemma put_simps [simp]:
  "heap (put name ob evs s) = heap s @ [ob]"
  "attrs (put name ob evs s) = (attrs s)(name \<mapsto> Ref (length (heap s)))"
  "trace (put name ob evs s) = trace s @ evs"
  by (simp_all add: put_def)

lemma def_file_put: "name \<noteq> ''def_file'' \<Longrightarrow> def_file X (put name ob evs s) = def_file X s"
  by (simp add: def_file_def)

lemma def_file_new: "def_file X (s\<lparr>attrs := Map.empty, klass := t\<rparr>) = ENT_DEF_XLS X"
  by (simp add: def_file_def)

subsection \<open>Construction establishes the invariant\<close>

lemma run_establishes:
  assumes "fst (run cs s) = None" and "st \<in> set cs"
    and "\<And>s. fst (st s) = None \<Longrightarrow> P (snd (st s))"
    and "\<And>st' s. st' \<in> set cs \<Longrightarrow> P s \<Longrightarrow> P (snd (st' s))"
  shows "P (snd (run cs s))"
  using assms(1,2,4)
proof (induction cs arbitrary: s)
  case Nil
  then show ?case by simp
next
  case (Cons c cs)
  obtain r s' where cs': "c s = (r, s')" by (cases "c s")
  with Cons.prems(1) have r: "r = None" by (cases r) simp_all
  have run_eq: "run (c # cs) s = run cs s'" using cs' r by simp
  show ?case
  proof (cases "st = c")
    case True
    with cs' r have "P s'" using assms(3) [of s] by simp
    then have "P (snd (run cs s'))"
      by (rule run_keeps [where P = P, rotated]) (simp add: Cons.prems(3))
    with run_eq show ?thesis by simp
  next
    case False
    with Cons.prems(2) have "st \<in> set cs" by simp
    moreover have "fst (run cs s') = None" using Cons.prems(1) run_eq by simp
    ultimately have "P (snd (run cs s'))"
      using Cons.IH [of s'] Cons.prems(3) by simp
    with run_eq show ?thesis by simp
  qed
qed

lemma holds_assign_default:
  assumes "required name = Some c" and "holds s name c" and "n \<noteq> ''__dict__''"
  shows "holds (snd (assign_default X n k s)) name c"
proof (cases "new_from_file X k (def_file X s)")
  case (Inl e)
  with assms(2) show ?thesis
    by (simp add: assign_default_raises holds_def split: option.splits)
next
  case (Inr d)
  let ?s = "s\<lparr>heap := heap s @ [\<lparr>cls = Base k, data = d\<rparr>],
               trace := trace s @ [Constructed k [def_file X s]]\<rparr>"
  from assms(2) have "holds ?s name c"
    by (auto simp: holds_def isinstance_append split: option.splits)
  from holds_setattr [OF assms(1) this assms(3), of "Ref (length (heap s))"] Inr show ?thesis
    by (simp add: assign_default_def construct_from_def)
qed

lemma assign_default_establishes:
  assumes "required name = Some c" and "fst (assign_default X name c s) = None"
  shows "holds (snd (assign_default X name c s)) name c"
proof (cases "new_from_file X c (def_file X s)")
  case (Inl e)
  with assms(2) show ?thesis by (simp add: assign_default_raises)
next
  case (Inr d)
  then show ?thesis
    by (simp add: assign_default_ok [OF assms(1)] holds_def)
qed

lemma assign_new_establishes:
  assumes "required name = Some c"
  shows "holds (snd (assign_new X name c s)) name c"
  by (simp add: assign_new_eq [OF assms] holds_def)

lemma read_establishes:
  assumes "fst (read X f d s) = None" and "(name, c) \<in> set read_order"
  shows "holds (snd (read X f d s)) name c"
proof -
  from assms(2) have req: "required name = Some c"
    by (auto simp: read_order_def required_def)
  have mem: "assign_new X name c \<in> set (read_body X f d)"
    using assms(2) by (auto simp: read_order_def read_body_def)
  have keep: "\<And>st s. st \<in> set (read_body X f d) \<Longrightarrow> holds s name c \<Longrightarrow> holds (snd (st s)) name c"
    unfolding read_body_def by (auto simp: holds_assign_new [OF req] holds_call_read)
  from assms(1) show ?thesis
    unfolding read_def
    by (rule run_establishes [OF _ mem]) (simp_all add: assign_new_establishes [OF req] keep)
qed

lemma default_establishes:
  assumes "fst (run (default_body X) s) = None" and "(name, c) \<in> set read_order"
  shows "holds (snd (run (default_body X) s)) name c"
proof -
  from assms(2) have req: "required name = Some c"
    by (auto simp: read_order_def required_def)
  have mem: "assign_default X name c \<in> set (default_body X)"
    using assms(2) by (auto simp: read_order_def default_body_def)
  have keep: "\<And>st s. st \<in> set (default_body X) \<Longrightarrow> holds s name c \<Longrightarrow> holds (snd (st s)) name c"
    unfolding default_body_def by (auto simp: holds_assign_default [OF req])
  from assms(1) show ?thesis
    by (rule run_establishes [OF _ mem]) (simp_all add: assign_default_establishes [OF req] keep)
qed

lemma init_establishes:
  assumes "fst (init X f d s) = None"
  shows "well_typed (snd (init X f d s))"
proof (cases "f = PyNone")
  case True
  then have eq: "init X f d s = run (default_body X) s"
    by (simp add: init_def default_body_def)
  from assms show ?thesis
    unfolding eq well_typed_def
    by (simp add: default_establishes read_order_def)
next
  case False
  then have eq: "init X f d s = read X f d s"
    by (simp add: init_def)
  from assms show ?thesis
    unfolding eq well_typed_def
    by (simp add: read_establishes read_order_def)
qed

text \<open>The methods of Entity do not change the class of the instance.\<close>

lemma klass_setattr:
  assumes "n \<noteq> ''__class__''"
  shows "klass (snd (setattr n v s)) = klass s"
proof (cases "required n")
  case None
  with assms show ?thesis
    by (simp add: setattr_free object_setattr_def split: pyval.splits)
next
  case (Some c)
  show ?thesis
  proof (cases "isinstance (heap s) v c")
    case True
    with Some show ?thesis by (simp add: setattr_ok)
  next
    case False
    with Some setattr_bad [of n c s v] show ?thesis by (auto simp: log_error_def)
  qed
qed

lemma klass_assign_new: "n \<noteq> ''__class__'' \<Longrightarrow> klass (snd (assign_new X n k s)) = klass s"
  using klass_setattr [of n "fst (construct X k s)" "snd (construct X k s)"]
  by (simp add: assign_new_def split_beta construct_def)

lemma klass_assign_default: "n \<noteq> ''__class__'' \<Longrightarrow> klass (snd (assign_default X n k s)) = klass s"
proof (cases "new_from_file X k (def_file X s)")
  case (Inl e)
  then show ?thesis by (simp add: assign_default_raises)
next
  case (Inr d)
  assume "n \<noteq> ''__class__''"
  from klass_setattr [OF this, of "Ref (length (heap s))"
      "s\<lparr>heap := heap s @ [\<lparr>cls = Base k, data = d\<rparr>], trace := trace s @ [Constructed k [def_file X s]]\<rparr>"]
    Inr show ?thesis
    by (simp add: assign_default_def construct_from_def)
qed

lemma klass_call_read: "klass (snd (call_read X n f d s)) = klass s"
  by (simp add: call_read_def split_beta split: option.splits pyval.splits)

lemma klass_call_check: "klass (snd (call_check X n s)) = klass s"
  by (simp add: call_check_def split_beta split: option.splits pyval.splits)

lemma klass_run:
  assumes "\<And>st s. st \<in> set cs \<Longrightarrow> klass (snd (st s)) = klass s"
  shows "klass (snd (run cs s)) = klass s"
  by (rule run_keeps [where P = "\<lambda>s'. klass s' = klass s"]) (simp_all add: assms)

lemma klass_read_body: "klass (snd (run (take k (read_body X f d)) s)) = klass s"
proof (rule klass_run)
  fix st s'
  assume "st \<in> set (take k (read_body X f d))"
  then have "st \<in> set (read_body X f d)" by (rule in_set_takeD)
  then show "klass (snd (st s')) = klass s'"
    by (auto simp: read_body_def klass_assign_new klass_call_read)
qed

lemma klass_check_body: "klass (snd (run (take k (check_body X)) s)) = klass s"
proof (rule klass_run)
  fix st s'
  assume "st \<in> set (take k (check_body X))"
  then have "st \<in> set (check_body X)" by (rule in_set_takeD)
  then show "klass (snd (st s')) = klass s'"
    by (auto simp: check_body_def klass_call_check)
qed

lemma klass_init: "klass (snd (init X f d s)) = klass s"
proof (cases "f = PyNone")
  case True
  then have "init X f d s = run (default_body X) s"
    by (simp add: init_def default_body_def)
  moreover have "klass (snd (run (default_body X) s)) = klass s"
    by (rule klass_run) (auto simp: default_body_def klass_assign_default)
  ultimately show ?thesis by simp
next
  case False
  then have "init X f d s = run (take 8 (read_body X f d)) s"
    by (simp add: init_def read_def read_body_def)
  then show ?thesis by (simp only: klass_read_body)
qed

lemma reachable_entity: "reachable X s \<Longrightarrow> well_typed s \<and> klass s = EntityType"
proof (induction rule: reachable.induct)
  case (constructed file_name description s0 s)
  let ?s = "s0\<lparr>attrs := Map.empty, klass := EntityType\<rparr>"
  from constructed have "init X file_name description ?s = (None, s)"
    by (simp add: Entity_def)
  with init_establishes [of X file_name description ?s] klass_init [of X file_name description ?s]
  show ?case by simp
next
  case (in_read s k file_name description)
  then show ?case by (simp add: well_typed_in_read klass_read_body)
next
  case (in_check s k)
  then show ?case by (simp add: well_typed_in_check klass_check_body)
next
  case (assigned s name v)
  then show ?case by (simp add: assign_def well_typed_setattr klass_setattr)
qed

subsection \<open>The statements of check\<close>

lemma map_cls_set_data: "map cls (h[a := (h ! a)\<lparr>data := d\<rparr>]) = map cls h"
proof (cases "a < length h")
  case True
  then show ?thesis by (intro nth_equalityI) (auto simp: nth_list_update)
next
  case False
  then have "length h \<le> a" by simp
  then show ?thesis by (simp only: list_update_beyond)
qed

lemma checked_simps [simp]:
  "attrs (checked X a s) = attrs s"
  "length (heap (checked X a s)) = length (heap s)"
  "trace (checked X a s) = trace s @ [CheckCalled a]"
  "b \<noteq> a \<Longrightarrow> heap (checked X a s) ! b = heap s ! b"
  "map cls (heap (checked X a s)) = map cls (heap s)"
  by (simp_all add: checked_def map_cls_set_data)

lemma call_check_ref:
  assumes "attrs s name = Some (Ref a)" and "a < length (heap s)"
  shows "call_check X name s = (own_check X s name, checked X a s)"
  using assms by (simp add: call_check_def own_check_def checked_def split_beta)

lemma call_check_other:
  assumes "\<forall>a. attrs s name = Some (Ref a) \<longrightarrow> \<not> a < length (heap s)"
  shows "call_check X name s = (Some AttributeError, s)"
  using assms by (auto simp: call_check_def split: option.splits pyval.splits)

lemma own_check_checked:
  assumes "attrs s n = Some (Ref b)" and "b \<noteq> a"
  shows "own_check X (checked X a s) n = own_check X s n"
  using assms by (simp add: own_check_def)

lemma holds_ref:
  assumes "holds s name c"
  obtains a where "attrs s name = Some (Ref a)" and "a < length (heap s)"
    and "issubclass (cls (heap s ! a)) c"
proof -
  from assms obtain v where v: "attrs s name = Some v" and i: "isinstance (heap s) v c"
    by (auto simp: holds_def split: option.splits)
  from i obtain a where "v = Ref a" by (cases v) simp_all
  with v i that show thesis by simp
qed

lemma check_unfold:
  assumes d: "attrs s ''disc_rates'' = Some (Ref ad)" "ad < length (heap s)"
    and e: "attrs s ''exposures'' = Some (Ref ae)" "ae < length (heap s)"
    and i: "attrs s ''impact_funcs'' = Some (Ref ai)" "ai < length (heap s)"
    and m: "attrs s ''measures'' = Some (Ref am)" "am < length (heap s)"
    and ne: "ae \<noteq> ad" "ai \<noteq> ad" "ai \<noteq> ae" "am \<noteq> ad" "am \<noteq> ae" "am \<noteq> ai"
  shows "check X s =
     (let s1 = checked X ad s in
      case own_check X s ''disc_rates'' of Some err \<Rightarrow> (Some err, s1) | None \<Rightarrow>
     (let s2 = checked X ae s1 in
      case own_check X s ''exposures'' of Some err \<Rightarrow> (Some err, s2) | None \<Rightarrow>
     (let s3 = checked X ai s2 in
      case own_check X s ''impact_funcs'' of Some err \<Rightarrow> (Some err, s3) | None \<Rightarrow>
     (let s4 = checked X am s3 in
      case own_check X s ''measures'' of Some err \<Rightarrow> (Some err, s4) | None \<Rightarrow> (None, s4)))))"
proof -
  define s1 where "s1 = checked X ad s"
  define s2 where "s2 = checked X ae s1"
  define s3 where "s3 = checked X ai s2"
  define s4 where "s4 = checked X am s3"
  have c1: "call_check X ''disc_rates'' s = (own_check X s ''disc_rates'', s1)"
    unfolding s1_def by (rule call_check_ref [OF d])
  have c2: "call_check X ''exposures'' s1 = (own_check X s ''exposures'', s2)"
    using call_check_ref [of s1 "''exposures''" ae X] own_check_checked [of s "''exposures''" ae ad X] e ne
    by (simp add: s1_def s2_def)
  have o3: "own_check X s2 ''impact_funcs'' = own_check X s ''impact_funcs''"
    using own_check_checked [of s1 "''impact_funcs''" ai ae X]
      own_check_checked [of s "''impact_funcs''" ai ad X] i ne
    by (simp add: s1_def s2_def)
  have c3: "call_check X ''impact_funcs'' s2 = (own_check X s ''impact_funcs'', s3)"
    using call_check_ref [of s2 "''impact_funcs''" ai X] i o3
    by (simp add: s1_def s2_def s3_def)
  have o4: "own_check X s3 ''measures'' = own_check X s ''measures''"
    using own_check_checked [of s2 "''measures''" am ai X]
      own_check_checked [of s1 "''measures''" am ae X]
      own_check_checked [of s "''measures''" am ad X] m ne
    by (simp add: s1_def s2_def s3_def)
  have c4: "call_check X ''measures'' s3 = (own_check X s ''measures'', s4)"
    using call_check_ref [of s3 "''measures''" am X] m o4
    by (simp add: s1_def s2_def s3_def s4_def)
  show ?thesis
    unfolding check_def check_body_def Let_def s1_def [symmetric] s2_def [symmetric]
      s3_def [symmetric] s4_def [symmetric]
    by (simp add: c1 c2 c3 c4 split: option.splits)
qed

subsection \<open>check assigns nothing\<close>

lemma only_checks_refl: "only_checks s s"
  by (simp add: only_checks_def)

lemma only_checks_call:
  assumes "only_checks s0 s"
  shows "only_checks s0 (snd (call_check X name s))"
proof (cases "\<exists>a. attrs s name = Some (Ref a) \<and> a < length (heap s)")
  case True
  then obtain a where "attrs s name = Some (Ref a)" "a < length (heap s)" by blast
  then have "call_check X name s = (own_check X s name, checked X a s)"
    by (rule call_check_ref)
  with assms show ?thesis by (auto simp: only_checks_def)
next
  case False
  then have "call_check X name s = (Some AttributeError, s)"
    by (intro call_check_other) blast
  with assms show ?thesis by simp
qed

subsection \<open>The examples, evaluated\<close>

lemmas demo_run =
  Entity_def init_def read_def read_body_def check_def check_body_def
  assign_new_def assign_default_def construct_def construct_from_def def_file_def
  call_read_def call_check_def setattr_def object_setattr_def log_error_def
  demo_def blank_def

lemma started_eq:
  "started =
     \<lparr>heap = [\<lparr>cls = Derived ''MyMeasures'' [Measures], data = []\<rparr>,
              \<lparr>cls = Base Exposures, data = [PyStr ''entity_default.xls'']\<rparr>,
              \<lparr>cls = Base ImpactFuncs, data = [PyStr ''entity_default.xls'']\<rparr>,
              \<lparr>cls = Base Measures, data = [PyStr ''entity_default.xls'']\<rparr>,
              \<lparr>cls = Base DiscRates, data = [PyStr ''entity_default.xls'']\<rparr>],
      attrs = [''exposures'' \<mapsto> Ref 1, ''impact_funcs'' \<mapsto> Ref 2,
               ''measures'' \<mapsto> Ref 3, ''disc_rates'' \<mapsto> Ref 4],
      trace = [Constructed Exposures [PyStr ''entity_default.xls''],
               Constructed ImpactFuncs [PyStr ''entity_default.xls''],
               Constructed Measures [PyStr ''entity_default.xls''],
               Constructed DiscRates [PyStr ''entity_default.xls'']],
      klass = EntityType\<rparr>"
  by (simp add: started_def demo_run eval_nat_numeral)

lemma filled_eq:
  assumes "fst (own_read demo Exposures f (PyStr ''2018'')) = None"
    and "fst (own_read demo DiscRates f (PyStr ''2018'')) = None"
    and "fst (own_read demo ImpactFuncs f (PyStr ''2018'')) = None"
    and "fst (own_read demo Measures f (PyStr ''2018'')) = None"
    and "f \<noteq> PyNone"
    and "\<And>c. snd (own_read demo c f (PyStr ''2018'')) = [f, PyStr ''2018'']"
  shows "filled f =
     \<lparr>heap = [\<lparr>cls = Derived ''MyMeasures'' [Measures], data = []\<rparr>,
              \<lparr>cls = Base Exposures, data = [f, PyStr ''2018'']\<rparr>,
              \<lparr>cls = Base DiscRates, data = [f, PyStr ''2018'']\<rparr>,
              \<lparr>cls = Base ImpactFuncs, data = [f, PyStr ''2018'']\<rparr>,
              \<lparr>cls = Base Measures, data = [f, PyStr ''2018'']\<rparr>],
      attrs = [''exposures'' \<mapsto> Ref 1, ''disc_rates'' \<mapsto> Ref 2,
               ''impact_funcs'' \<mapsto> Ref 3, ''measures'' \<mapsto> Ref 4],
      trace = [Constructed Exposures [], ReadCalled 1 f (PyStr ''2018''),
               Constructed DiscRates [], ReadCalled 2 f (PyStr ''2018''),
               Constructed ImpactFuncs [], ReadCalled 3 f (PyStr ''2018''),
               Constructed Measures [], ReadCalled 4 f (PyStr ''2018'')],
      klass = EntityType\<rparr>"
  using assms(5)
  by (simp add: filled_def Entity_def init_def read_unfold assms(1-4,6) loaded_def put_def blank_def eval_nat_numeral)

lemma filled_a: "filled (PyStr ''a.xls'') =
     \<lparr>heap = [\<lparr>cls = Derived ''MyMeasures'' [Measures], data = []\<rparr>,
              \<lparr>cls = Base Exposures, data = [PyStr ''a.xls'', PyStr ''2018'']\<rparr>,
              \<lparr>cls = Base DiscRates, data = [PyStr ''a.xls'', PyStr ''2018'']\<rparr>,
              \<lparr>cls = Base ImpactFuncs, data = [PyStr ''a.xls'', PyStr ''2018'']\<rparr>,
              \<lparr>cls = Base Measures, data = [PyStr ''a.xls'', PyStr ''2018'']\<rparr>],
      attrs = [''exposures'' \<mapsto> Ref 1, ''disc_rates'' \<mapsto> Ref 2,
               ''impact_funcs'' \<mapsto> Ref 3, ''measures'' \<mapsto> Ref 4],
      trace = [Constructed Exposures [], ReadCalled 1 (PyStr ''a.xls'') (PyStr ''2018''),
               Constructed DiscRates [], ReadCalled 2 (PyStr ''a.xls'') (PyStr ''2018''),
               Constructed ImpactFuncs [], ReadCalled 3 (PyStr ''a.xls'') (PyStr ''2018''),
               Constructed Measures [], ReadCalled 4 (PyStr ''a.xls'') (PyStr ''2018'')],
      klass = EntityType\<rparr>"
  by (rule filled_eq) (simp_all add: own_read_def demo_def)

lemma filled_negative: "filled (PyStr ''negative.xls'') =
     \<lparr>heap = [\<lparr>cls = Derived ''MyMeasures'' [Measures], data = []\<rparr>,
              \<lparr>cls = Base Exposures, data = [PyStr ''negative.xls'', PyStr ''2018'']\<rparr>,
              \<lparr>cls = Base DiscRates, data = [PyStr ''negative.xls'', PyStr ''2018'']\<rparr>,
              \<lparr>cls = Base ImpactFuncs, data = [PyStr ''negative.xls'', PyStr ''2018'']\<rparr>,
              \<lparr>cls = Base Measures, data = [PyStr ''negative.xls'', PyStr ''2018'']\<rparr>],
      attrs = [''exposures'' \<mapsto> Ref 1, ''disc_rates'' \<mapsto> Ref 2,
               ''impact_funcs'' \<mapsto> Ref 3, ''measures'' \<mapsto> Ref 4],
      trace = [Constructed Exposures [], ReadCalled 1 (PyStr ''negative.xls'') (PyStr ''2018''),
               Constructed DiscRates [], ReadCalled 2 (PyStr ''negative.xls'') (PyStr ''2018''),
               Constructed ImpactFuncs [], ReadCalled 3 (PyStr ''negative.xls'') (PyStr ''2018''),
               Constructed Measures [], ReadCalled 4 (PyStr ''negative.xls'') (PyStr ''2018'')],
      klass = EntityType\<rparr>"
  by (rule filled_eq) (simp_all add: own_read_def demo_def)

lemma well_typed_started: "well_typed started"
  by (simp add: started_eq well_typed_def holds_def)

lemma well_typed_filled: "well_typed (filled (PyStr ''a.xls''))" "well_typed (filled (PyStr ''negative.xls''))"
  by (simp_all add: filled_a filled_negative well_typed_def holds_def)

lemma reachable_started: "reachable demo started"
proof -
  have "fst (Entity demo PyNone PyNone blank) = None"
    by (simp add: demo_run)
  then have "Entity demo PyNone PyNone blank = (None, started)"
    by (simp add: started_def prod_eq_iff)
  then show ?thesis
    by (rule reachable.constructed)
qed

section \<open>The properties\<close>

text \<open>
  Claim C1, as amended. In every state of an Entity after its construction, each of the
  four attributes \<^verbatim>\<open>exposures\<close>, \<^verbatim>\<open>impact_funcs\<close>, \<^verbatim>\<open>measures\<close>, \<^verbatim>\<open>disc_rates\<close> holds
  an instance of its collection class (or of a subclass), and the object is still an
  Entity: a successful construction establishes this, and \<^verbatim>\<open>read\<close>, \<^verbatim>\<open>check\<close> (at
  every statement, whether they return or raise) and the assignment to any attribute
  other than \<^verbatim>\<open>__dict__\<close> and \<^verbatim>\<open>__class__\<close> keep it. An assignment of a value that is no
  instance of the class its attribute requires raises ValueError.
\<close>

theorem entity_invariant:
  "(reachable X s \<longrightarrow> well_typed s \<and> klass s = EntityType) \<and>
   (\<forall>name c v. required name = Some c \<and> \<not> isinstance (heap s) v c \<longrightarrow>
      fst (setattr name v s) = Some ValueError)"
proof (intro conjI allI impI)
  assume "reachable X s"
  then show "well_typed s" by (simp add: reachable_entity)
next
  assume "reachable X s"
  then show "klass s = EntityType" by (simp add: reachable_entity)
next
  fix name c v
  assume "required name = Some c \<and> \<not> isinstance (heap s) v c"
  then obtain msg where "setattr name v s = (Some ValueError, log_error msg s)"
    using setattr_bad [of name c s v] by blast
  then show "fst (setattr name v s) = Some ValueError" by simp
qed

text \<open>
  An instance: the Entity built from the default file, after an attribute of another
  name has been assigned; a collection of the wrong class is refused.
\<close>

theorem entity_invariant_witness:
  "reachable demo (snd (assign ''note'' (PyInt 1) started)) \<and>
   well_typed (snd (assign ''note'' (PyInt 1) started)) \<and>
   klass (snd (assign ''note'' (PyInt 1) started)) = EntityType \<and>
   required ''measures'' = Some Measures \<and>
   \<not> isinstance (heap (snd (assign ''note'' (PyInt 1) started))) (Ref 1) Measures \<and>
   fst (setattr ''measures'' (Ref 1) (snd (assign ''note'' (PyInt 1) started))) = Some ValueError"
proof -
  let ?s = "snd (assign ''note'' (PyInt 1) started)"
  have "reachable demo ?s"
    by (rule reachable.assigned [OF reachable_started]) simp_all
  moreover have "required ''measures'' = Some Measures \<and> \<not> isinstance (heap ?s) (Ref 1) Measures"
    by (simp add: required_def assign_def setattr_def object_setattr_def started_eq)
  ultimately show ?thesis
    using entity_invariant [of demo ?s] by blast
qed

text \<open>
  The claim as it was stated counts every attribute assignment among the operations
  that keep the invariant. Two assignments that \<^verbatim>\<open>__setattr__\<close> lets through do not.
  On the Entity built from the default file, \<^verbatim>\<open>e.__dict__ = {'exposures': 3}\<close> returns
  and leaves \<^verbatim>\<open>exposures\<close> an integer and the three other attributes unset. And
  \<^verbatim>\<open>e.__class__ = Plain; e.exposures = 3; e.__class__ = Entity\<close> returns and leaves an
  Entity whose \<^verbatim>\<open>exposures\<close> is an integer.
\<close>

theorem entity_invariant_counterexample:
  "reachable demo started \<and>
   fst (assign ''__dict__'' (PyDict [(''exposures'', PyInt 3)]) started) = None \<and>
   attrs (snd (assign ''__dict__'' (PyDict [(''exposures'', PyInt 3)]) started)) ''exposures'' = Some (PyInt 3) \<and>
   attrs (snd (assign ''__dict__'' (PyDict [(''exposures'', PyInt 3)]) started)) ''measures'' = None \<and>
   klass (snd (assign ''__dict__'' (PyDict [(''exposures'', PyInt 3)]) started)) = EntityType \<and>
   \<not> well_typed (snd (assign ''__dict__'' (PyDict [(''exposures'', PyInt 3)]) started)) \<and>
   fst (run [assign ''__class__'' (PyType (PlainType ''Plain'')), assign ''exposures'' (PyInt 3),
             assign ''__class__'' (PyType EntityType)] started) = None \<and>
   klass (snd (run [assign ''__class__'' (PyType (PlainType ''Plain'')), assign ''exposures'' (PyInt 3),
             assign ''__class__'' (PyType EntityType)] started)) = EntityType \<and>
   \<not> well_typed (snd (run [assign ''__class__'' (PyType (PlainType ''Plain'')), assign ''exposures'' (PyInt 3),
             assign ''__class__'' (PyType EntityType)] started))"
proof -
  let ?d = "assign ''__dict__'' (PyDict [(''exposures'', PyInt 3)]) started"
  let ?c = "run [assign ''__class__'' (PyType (PlainType ''Plain'')), assign ''exposures'' (PyInt 3),
                 assign ''__class__'' (PyType EntityType)] started"
  have d: "?d = (None, started\<lparr>attrs := [''exposures'' \<mapsto> PyInt 3]\<rparr>)"
    by (simp add: assign_def setattr_def object_setattr_def started_eq)
  have c: "?c = (None, started\<lparr>attrs := (attrs started)(''exposures'' \<mapsto> PyInt 3)\<rparr>)"
    by (simp add: assign_def setattr_def object_setattr_def started_eq)
  have k: "klass started = EntityType"
    by (simp add: started_eq)
  show ?thesis
    unfolding d c
    by (simp add: reachable_started k well_typed_def holds_def)
qed

text \<open>
  Claim C2. \<^verbatim>\<open>Entity()\<close>, that is no file name, with any description: when the four
  collections can be constructed from the default file \<^verbatim>\<open>ENT_DEF_XLS\<close>, the construction
  returns, each attribute refers to a new object of its own collection class with the
  contents that \<^verbatim>\<open>C(ENT_DEF_XLS)\<close> gives, every attribute holds an instance of its
  class, and the only calls made are the four constructors with \<^verbatim>\<open>ENT_DEF_XLS\<close>, in
  the order exposures, impact functions, measures, discount rates.
\<close>

theorem default_construction:
  assumes "new_from_file X Exposures (ENT_DEF_XLS X) = Inr de"
    and "new_from_file X ImpactFuncs (ENT_DEF_XLS X) = Inr di"
    and "new_from_file X Measures (ENT_DEF_XLS X) = Inr dm"
    and "new_from_file X DiscRates (ENT_DEF_XLS X) = Inr dr"
  shows "fst (Entity X PyNone description s) = None \<and>
         holds_new s (snd (Entity X PyNone description s)) ''exposures'' \<lparr>cls = Base Exposures, data = de\<rparr> \<and>
         holds_new s (snd (Entity X PyNone description s)) ''impact_funcs'' \<lparr>cls = Base ImpactFuncs, data = di\<rparr> \<and>
         holds_new s (snd (Entity X PyNone description s)) ''measures'' \<lparr>cls = Base Measures, data = dm\<rparr> \<and>
         holds_new s (snd (Entity X PyNone description s)) ''disc_rates'' \<lparr>cls = Base DiscRates, data = dr\<rparr> \<and>
         well_typed (snd (Entity X PyNone description s)) \<and>
         trace (snd (Entity X PyNone description s)) =
           trace s @ [Constructed Exposures [ENT_DEF_XLS X], Constructed ImpactFuncs [ENT_DEF_XLS X],
                      Constructed Measures [ENT_DEF_XLS X], Constructed DiscRates [ENT_DEF_XLS X]]"
proof -
  let ?F = "ENT_DEF_XLS X"
  define s0 where "s0 = s\<lparr>attrs := Map.empty, klass := EntityType\<rparr>"
  define s1 where "s1 = put ''exposures'' \<lparr>cls = Base Exposures, data = de\<rparr> [Constructed Exposures [?F]] s0"
  define s2 where "s2 = put ''impact_funcs'' \<lparr>cls = Base ImpactFuncs, data = di\<rparr> [Constructed ImpactFuncs [?F]] s1"
  define s3 where "s3 = put ''measures'' \<lparr>cls = Base Measures, data = dm\<rparr> [Constructed Measures [?F]] s2"
  define s4 where "s4 = put ''disc_rates'' \<lparr>cls = Base DiscRates, data = dr\<rparr> [Constructed DiscRates [?F]] s3"
  have f0: "def_file X s0 = ?F" by (simp add: s0_def def_file_new)
  have f1: "def_file X s1 = ?F" by (simp add: s1_def def_file_put f0)
  have f2: "def_file X s2 = ?F" by (simp add: s2_def def_file_put f1)
  have f3: "def_file X s3 = ?F" by (simp add: s3_def def_file_put f2)
  have a1: "assign_default X ''exposures'' Exposures s0 = (None, s1)"
    using assign_default_ok [of "''exposures''" Exposures X s0 de] assms(1)
    by (simp add: f0 s1_def required_simps)
  have a2: "assign_default X ''impact_funcs'' ImpactFuncs s1 = (None, s2)"
    using assign_default_ok [of "''impact_funcs''" ImpactFuncs X s1 di] assms(2)
    by (simp add: f1 s2_def required_simps)
  have a3: "assign_default X ''measures'' Measures s2 = (None, s3)"
    using assign_default_ok [of "''measures''" Measures X s2 dm] assms(3)
    by (simp add: f2 s3_def required_simps)
  have a4: "assign_default X ''disc_rates'' DiscRates s3 = (None, s4)"
    using assign_default_ok [of "''disc_rates''" DiscRates X s3 dr] assms(4)
    by (simp add: f3 s4_def required_simps)
  have res: "Entity X PyNone description s = (None, s4)"
    by (simp add: Entity_def init_def a1 a2 a3 a4 s0_def [symmetric])
  show ?thesis
    unfolding res
    by (simp add: s4_def s3_def s2_def s1_def s0_def holds_new_def well_typed_def holds_def nth_append)
qed

text \<open>An instance of the property, on the example collaborator.\<close>

theorem default_construction_witness:
  "new_from_file demo Exposures (ENT_DEF_XLS demo) = Inr [PyStr ''entity_default.xls''] \<and>
   new_from_file demo ImpactFuncs (ENT_DEF_XLS demo) = Inr [PyStr ''entity_default.xls''] \<and>
   new_from_file demo Measures (ENT_DEF_XLS demo) = Inr [PyStr ''entity_default.xls''] \<and>
   new_from_file demo DiscRates (ENT_DEF_XLS demo) = Inr [PyStr ''entity_default.xls''] \<and>
   fst (Entity demo PyNone (PyStr ''ignored'') blank) = None \<and>
   holds_new blank (snd (Entity demo PyNone (PyStr ''ignored'') blank)) ''disc_rates''
     \<lparr>cls = Base DiscRates, data = [PyStr ''entity_default.xls'']\<rparr> \<and>
   well_typed (snd (Entity demo PyNone (PyStr ''ignored'') blank))"
proof -
  have h: "new_from_file demo c (ENT_DEF_XLS demo) = Inr [PyStr ''entity_default.xls'']" for c
    by (simp add: demo_def)
  from default_construction [OF h h h h, of "PyStr ''ignored''" blank] h show ?thesis
    by simp
qed

text \<open>
  Claim C3. \<^verbatim>\<open>Entity(file_name, description)\<close> with a file name is \<^verbatim>\<open>read\<close> on the new
  instance. When the file is valid, that is the own read of each of the four
  collections succeeds on it, the construction returns and each attribute refers to a
  new object of its collection class whose contents are what a fresh instance of that
  collection holds after its own read of \<open>file_name\<close> with \<open>description\<close>.
\<close>

theorem construction_with_file_name:
  assumes "file_name \<noteq> PyNone"
    and "\<forall>(name, c) \<in> set read_order. fst (own_read X c file_name description) = None"
  shows "Entity X file_name description s =
           read X file_name description (s\<lparr>attrs := Map.empty, klass := EntityType\<rparr>) \<and>
         fst (Entity X file_name description s) = None \<and>
         (\<forall>(name, c) \<in> set read_order.
            holds_new s (snd (Entity X file_name description s)) name
              \<lparr>cls = Base c, data = snd (own_read X c file_name description)\<rparr>)"
proof -
  have eq: "Entity X file_name description s =
              read X file_name description (s\<lparr>attrs := Map.empty, klass := EntityType\<rparr>)"
    using assms(1) by (simp add: Entity_def init_def)
  from assms(2) have ok:
    "fst (own_read X Exposures file_name description) = None"
    "fst (own_read X DiscRates file_name description) = None"
    "fst (own_read X ImpactFuncs file_name description) = None"
    "fst (own_read X Measures file_name description) = None"
    by (simp_all add: read_order_def)
  show ?thesis
    unfolding eq by (simp add: read_unfold ok read_order_def holds_new_def nth_append)
qed

text \<open>An instance of the property, on the example collaborator.\<close>

theorem construction_with_file_name_witness:
  "PyStr ''a.xls'' \<noteq> PyNone \<and>
   fst (own_read demo Exposures (PyStr ''a.xls'') (PyStr ''2018'')) = None \<and>
   fst (own_read demo DiscRates (PyStr ''a.xls'') (PyStr ''2018'')) = None \<and>
   fst (own_read demo ImpactFuncs (PyStr ''a.xls'') (PyStr ''2018'')) = None \<and>
   fst (own_read demo Measures (PyStr ''a.xls'') (PyStr ''2018'')) = None \<and>
   fst (Entity demo (PyStr ''a.xls'') (PyStr ''2018'') blank) = None \<and>
   holds_new blank (snd (Entity demo (PyStr ''a.xls'') (PyStr ''2018'') blank)) ''impact_funcs''
     \<lparr>cls = Base ImpactFuncs, data = [PyStr ''a.xls'', PyStr ''2018'']\<rparr>"
proof -
  let ?f = "PyStr ''a.xls''" and ?d = "PyStr ''2018''"
  have h1: "?f \<noteq> PyNone" by simp
  have ok: "fst (own_read demo Exposures ?f ?d) = None" "fst (own_read demo DiscRates ?f ?d) = None"
    "fst (own_read demo ImpactFuncs ?f ?d) = None" "fst (own_read demo Measures ?f ?d) = None"
    by (simp_all add: own_read_def demo_def)
  then have h2: "\<forall>(name, c) \<in> set read_order. fst (own_read demo c ?f ?d) = None"
    by (simp add: read_order_def)
  have o: "snd (own_read demo ImpactFuncs ?f ?d) = [?f, ?d]"
    by (simp add: own_read_def demo_def)
  from construction_with_file_name [OF h1 h2, of blank]
  have c: "fst (Entity demo ?f ?d blank) = None"
    and n: "\<forall>(name, c) \<in> set read_order.
              holds_new blank (snd (Entity demo ?f ?d blank)) name
                \<lparr>cls = Base c, data = snd (own_read demo c ?f ?d)\<rparr>"
    by blast+
  from n o have "holds_new blank (snd (Entity demo ?f ?d blank)) ''impact_funcs''
     \<lparr>cls = Base ImpactFuncs, data = [?f, ?d]\<rparr>"
    by (simp add: read_order_def)
  with c h1 ok show ?thesis
    by (intro conjI)
qed

text \<open>
  Claim C4, as amended. When the read of the \<open>i\<close>-th collection (in the order exposures, discount
  rates, impact functions, measures) is the first that raises, with the error \<open>e\<close>:
  \<^verbatim>\<open>read\<close> raises \<open>e\<close>, and nothing is rolled back. The attributes of the collections
  before the \<open>i\<close>-th refer to new objects with the contents read from the file; the
  attribute of the \<open>i\<close>-th refers to the new instance made for it, as its failed read
  left it (which need be neither its previous value nor an empty instance); the
  attributes of the collections after the \<open>i\<close>-th are what they were before the call;
  the objects that existed before the call are untouched.
\<close>

theorem read_failure_no_rollback:
  assumes "i < 4"
    and "\<forall>j<i. fst (own_read X (snd (read_order ! j)) f d) = None"
    and "fst (own_read X (snd (read_order ! i)) f d) = Some e"
  shows "fst (read X f d s) = Some e \<and>
         (\<forall>j\<le>i. holds_new s (snd (read X f d s)) (fst (read_order ! j))
                    \<lparr>cls = Base (snd (read_order ! j)),
                     data = snd (own_read X (snd (read_order ! j)) f d)\<rparr>) \<and>
         (\<forall>j. i < j \<and> j < 4 \<longrightarrow>
              attrs (snd (read X f d s)) (fst (read_order ! j)) = attrs s (fst (read_order ! j))) \<and>
         take (length (heap s)) (heap (snd (read X f d s))) = heap s"
proof -
  from assms(1) consider "i = 0" | "i = 1" | "i = 2" | "i = 3"
    using below_four by blast
  then show ?thesis
  proof cases
    case 1
    with assms(3) have r: "fst (own_read X Exposures f d) = Some e"
      by (simp add: read_order_def)
    show ?thesis
      unfolding 1 upto_cases above_cases
      by (simp add: read_unfold r read_order_def holds_new_def)
  next
    case 2
    from assms(2) [rule_format, of 0] 2 have r0: "fst (own_read X Exposures f d) = None"
      by (simp add: read_order_def)
    from assms(3) 2 have r: "fst (own_read X DiscRates f d) = Some e"
      by (simp add: read_order_def)
    show ?thesis
      unfolding 2 upto_cases above_cases
      by (simp add: read_unfold r0 r read_order_def holds_new_def nth_append)
  next
    case 3
    from assms(2) [rule_format, of 0] 3 have r0: "fst (own_read X Exposures f d) = None"
      by (simp add: read_order_def)
    from assms(2) [rule_format, of 1] 3 have r1: "fst (own_read X DiscRates f d) = None"
      by (simp add: read_order_def)
    from assms(3) 3 have r: "fst (own_read X ImpactFuncs f d) = Some e"
      by (simp add: read_order_def)
    show ?thesis
      unfolding 3 upto_cases above_cases
      by (simp add: read_unfold r0 r1 r read_order_def holds_new_def nth_append)
  next
    case 4
    from assms(2) [rule_format, of 0] 4 have r0: "fst (own_read X Exposures f d) = None"
      by (simp add: read_order_def)
    from assms(2) [rule_format, of 1] 4 have r1: "fst (own_read X DiscRates f d) = None"
      by (simp add: read_order_def)
    from assms(2) [rule_format, of 2] 4 have r2: "fst (own_read X ImpactFuncs f d) = None"
      by (simp add: read_order_def)
    from assms(3) 4 have r: "fst (own_read X Measures f d) = Some e"
      by (simp add: read_order_def)
    show ?thesis
      unfolding 4 upto_cases above_cases
      by (simp add: read_unfold r0 r1 r2 r read_order_def holds_new_def nth_append)
  qed
qed

text \<open>An instance of the property, on the example collaborator.\<close>

theorem read_failure_no_rollback_witness:
  "fst (own_read demo Exposures (PyStr ''bad_rates.xls'') PyNone) = None \<and>
   fst (own_read demo DiscRates (PyStr ''bad_rates.xls'') PyNone) = Some ValueError \<and>
   fst (read demo (PyStr ''bad_rates.xls'') PyNone started) = Some ValueError \<and>
   holds_new started (snd (read demo (PyStr ''bad_rates.xls'') PyNone started)) ''exposures''
     \<lparr>cls = Base Exposures, data = [PyStr ''bad_rates.xls'', PyNone]\<rparr> \<and>
   holds_new started (snd (read demo (PyStr ''bad_rates.xls'') PyNone started)) ''disc_rates''
     \<lparr>cls = Base DiscRates, data = [PyStr ''bad_rates.xls'']\<rparr> \<and>
   attrs (snd (read demo (PyStr ''bad_rates.xls'') PyNone started)) ''impact_funcs'' = Some (Ref 2) \<and>
   attrs (snd (read demo (PyStr ''bad_rates.xls'') PyNone started)) ''measures'' = Some (Ref 3)"
proof -
  let ?f = "PyStr ''bad_rates.xls''"
  have ok: "fst (own_read demo Exposures ?f PyNone) = None"
    and bad: "fst (own_read demo DiscRates ?f PyNone) = Some ValueError"
    by (simp_all add: own_read_def demo_def)
  have h1: "(1::nat) < 4" by simp
  have h2: "\<forall>j<1. fst (own_read demo (snd (read_order ! j)) ?f PyNone) = None"
    using ok by (simp add: read_order_def)
  have h3: "fst (own_read demo (snd (read_order ! 1)) ?f PyNone) = Some ValueError"
    using bad by (simp add: read_order_def)
  have o: "snd (own_read demo Exposures ?f PyNone) = [?f, PyNone]"
    "snd (own_read demo DiscRates ?f PyNone) = [?f]"
    by (simp_all add: own_read_def demo_def)
  have before: "attrs started ''impact_funcs'' = Some (Ref 2)" "attrs started ''measures'' = Some (Ref 3)"
    by (simp_all add: started_eq)
  from read_failure_no_rollback [OF h1 h2 h3, of started]
  have c: "fst (read demo ?f PyNone started) = Some ValueError"
    and n: "\<forall>j\<le>1. holds_new started (snd (read demo ?f PyNone started)) (fst (read_order ! j))
                    \<lparr>cls = Base (snd (read_order ! j)),
                     data = snd (own_read demo (snd (read_order ! j)) ?f PyNone)\<rparr>"
    and p: "\<forall>j. 1 < j \<and> j < 4 \<longrightarrow>
              attrs (snd (read demo ?f PyNone started)) (fst (read_order ! j)) = attrs started (fst (read_order ! j))"
    by blast+
  from n [rule_format, of 0] n [rule_format, of 1] p [rule_format, of 2] p [rule_format, of 3] c ok bad o before
  show ?thesis
    by (simp add: read_order_def)
qed

text \<open>
  The claim as it was stated has the collection at the failure point still hold its
  default or previous value. On the Entity built from the default file, the read of
  \<^verbatim>\<open>bad_rates.xls\<close> raises in the discount rates after they have recorded the file:
  \<^verbatim>\<open>disc_rates\<close> then refers to a new object, which is neither the object it referred
  to before nor an empty collection.
\<close>

theorem read_failure_no_rollback_counterexample:
  "fst (own_read demo Exposures (PyStr ''bad_rates.xls'') PyNone) = None \<and>
   fst (own_read demo DiscRates (PyStr ''bad_rates.xls'') PyNone) = Some ValueError \<and>
   fst (read demo (PyStr ''bad_rates.xls'') PyNone started) = Some ValueError \<and>
   attrs started ''disc_rates'' = Some (Ref 4) \<and>
   heap started ! 4 = \<lparr>cls = Base DiscRates, data = [PyStr ''entity_default.xls'']\<rparr> \<and>
   attrs (snd (read demo (PyStr ''bad_rates.xls'') PyNone started)) ''disc_rates'' = Some (Ref 6) \<and>
   heap (snd (read demo (PyStr ''bad_rates.xls'') PyNone started)) ! 6 =
     \<lparr>cls = Base DiscRates, data = [PyStr ''bad_rates.xls'']\<rparr> \<and>
   heap (snd (read demo (PyStr ''bad_rates.xls'') PyNone started)) ! 6 \<noteq> heap started ! 4 \<and>
   heap (snd (read demo (PyStr ''bad_rates.xls'') PyNone started)) ! 6 \<noteq>
     \<lparr>cls = Base DiscRates, data = new_empty demo DiscRates\<rparr>"
proof -
  have r: "fst (own_read demo Exposures (PyStr ''bad_rates.xls'') PyNone) = None"
    "fst (own_read demo DiscRates (PyStr ''bad_rates.xls'') PyNone) = Some ValueError"
    "snd (own_read demo DiscRates (PyStr ''bad_rates.xls'') PyNone) = [PyStr ''bad_rates.xls'']"
    by (simp_all add: own_read_def demo_def)
  have n: "length (heap started) = 5" "attrs started ''disc_rates'' = Some (Ref 4)"
    "heap started ! 4 = \<lparr>cls = Base DiscRates, data = [PyStr ''entity_default.xls'']\<rparr>"
    by (simp_all add: started_eq)
  have e: "new_empty demo DiscRates = []"
    by (simp add: demo_def)
  show ?thesis
    by (simp add: read_unfold r n e nth_append)
qed

text \<open>
  Claim C5, as amended. On an Entity whose attributes hold instances of their classes
  and refer to four different objects, \<^verbatim>\<open>check\<close> goes through discount rates,
  exposures, impact functions, measures. When the
  \<open>i\<close>-th is the first collection whose check reports an error \<open>e\<close> (in particular when
  it is the only invalid one), \<^verbatim>\<open>check\<close> raises \<open>e\<close> and the calls it has made are the
  checks of the collections up to the \<open>i\<close>-th, none of a later one. When the four
  collections are valid, \<^verbatim>\<open>check\<close> returns without error, having checked the four.
\<close>

theorem check_stops_at_first_failure:
  assumes "well_typed s" and "distinct (map (attrs s) check_order)"
  shows "(\<forall>i e. i < 4 \<and> (\<forall>j<i. own_check X s (check_order ! j) = None) \<and>
                own_check X s (check_order ! i) = Some e \<longrightarrow>
            fst (check X s) = Some e \<and>
            trace (snd (check X s)) = trace s @ check_calls s (take (Suc i) check_order)) \<and>
         ((\<forall>j<4. own_check X s (check_order ! j) = None) \<longrightarrow>
            fst (check X s) = None \<and>
            trace (snd (check X s)) = trace s @ check_calls s check_order)"
proof -
  from assms(1) have h: "holds s ''disc_rates'' DiscRates" "holds s ''exposures'' Exposures"
    "holds s ''impact_funcs'' ImpactFuncs" "holds s ''measures'' Measures"
    by (simp_all add: well_typed_def)
  from h(1) obtain ad where d: "attrs s ''disc_rates'' = Some (Ref ad)" "ad < length (heap s)"
    and kd: "issubclass (cls (heap s ! ad)) DiscRates" by (rule holds_ref)
  from h(2) obtain ae where e: "attrs s ''exposures'' = Some (Ref ae)" "ae < length (heap s)"
    and ke: "issubclass (cls (heap s ! ae)) Exposures" by (rule holds_ref)
  from h(3) obtain ai where i: "attrs s ''impact_funcs'' = Some (Ref ai)" "ai < length (heap s)"
    and ki: "issubclass (cls (heap s ! ai)) ImpactFuncs" by (rule holds_ref)
  from h(4) obtain am where m: "attrs s ''measures'' = Some (Ref am)" "am < length (heap s)"
    and km: "issubclass (cls (heap s ! am)) Measures" by (rule holds_ref)
  have ne: "ae \<noteq> ad" "ai \<noteq> ad" "ai \<noteq> ae" "am \<noteq> ad" "am \<noteq> ae" "am \<noteq> ai"
    using assms(2) by (auto simp: check_order_def d e i m)
  note unfold = check_unfold [OF d e i m ne, of X]
  note calls = check_calls_def check_order_def d e i m
  have first: "fst (check X s) = Some err \<and>
               trace (snd (check X s)) = trace s @ check_calls s (take (Suc k) check_order)"
    if "k < 4" and "\<forall>j<k. own_check X s (check_order ! j) = None"
      and "own_check X s (check_order ! k) = Some err" for k err
  proof -
    from that(1) consider "k = 0" | "k = 1" | "k = 2" | "k = 3"
      using below_four by blast
    then show ?thesis
    proof cases
      case 1
      with that(3) have r: "own_check X s ''disc_rates'' = Some err"
        by (simp add: check_order_def)
      show ?thesis unfolding 1 by (simp add: unfold r calls)
    next
      case 2
      from that(2) [rule_format, of 0] 2 have r0: "own_check X s ''disc_rates'' = None"
        by (simp add: check_order_def)
      from that(3) 2 have r: "own_check X s ''exposures'' = Some err"
        by (simp add: check_order_def)
      show ?thesis unfolding 2 by (simp add: unfold r0 r calls)
    next
      case 3
      from that(2) [rule_format, of 0] 3 have r0: "own_check X s ''disc_rates'' = None"
        by (simp add: check_order_def)
      from that(2) [rule_format, of 1] 3 have r1: "own_check X s ''exposures'' = None"
        by (simp add: check_order_def)
      from that(3) 3 have r: "own_check X s ''impact_funcs'' = Some err"
        by (simp add: check_order_def)
      show ?thesis unfolding 3 by (simp add: unfold r0 r1 r calls)
    next
      case 4
      from that(2) [rule_format, of 0] 4 have r0: "own_check X s ''disc_rates'' = None"
        by (simp add: check_order_def)
      from that(2) [rule_format, of 1] 4 have r1: "own_check X s ''exposures'' = None"
        by (simp add: check_order_def)
      from that(2) [rule_format, of 2] 4 have r2: "own_check X s ''impact_funcs'' = None"
        by (simp add: check_order_def)
      from that(3) 4 have r: "own_check X s ''measures'' = Some err"
        by (simp add: check_order_def)
      show ?thesis unfolding 4 by (simp add: unfold r0 r1 r2 r calls)
    qed
  qed
  have all_ok: "fst (check X s) = None \<and> trace (snd (check X s)) = trace s @ check_calls s check_order"
    if ok: "\<forall>j<4. own_check X s (check_order ! j) = None"
  proof -
    from ok [rule_format, of 0] have r0: "own_check X s ''disc_rates'' = None"
      by (simp add: check_order_def)
    from ok [rule_format, of 1] have r1: "own_check X s ''exposures'' = None"
      by (simp add: check_order_def)
    from ok [rule_format, of 2] have r2: "own_check X s ''impact_funcs'' = None"
      by (simp add: check_order_def)
    from ok [rule_format, of 3] have r3: "own_check X s ''measures'' = None"
      by (simp add: check_order_def)
    show ?thesis by (simp add: unfold r0 r1 r2 r3 calls)
  qed
  from first all_ok show ?thesis by blast
qed

text \<open>An instance of the property, on the example collaborator.\<close>

theorem check_stops_at_first_failure_witness:
  "well_typed (filled (PyStr ''negative.xls'')) \<and>
   distinct (map (attrs (filled (PyStr ''negative.xls''))) check_order) \<and>
   distinct (map (attrs (filled (PyStr ''a.xls''))) check_order) \<and>
   own_check demo (filled (PyStr ''negative.xls'')) ''disc_rates'' = None \<and>
   own_check demo (filled (PyStr ''negative.xls'')) ''exposures'' = Some ValueError \<and>
   fst (check demo (filled (PyStr ''negative.xls''))) = Some ValueError \<and>
   trace (snd (check demo (filled (PyStr ''negative.xls'')))) =
     trace (filled (PyStr ''negative.xls'')) @ [CheckCalled 2, CheckCalled 1] \<and>
   well_typed (filled (PyStr ''a.xls'')) \<and>
   own_check demo (filled (PyStr ''a.xls'')) ''disc_rates'' = None \<and>
   own_check demo (filled (PyStr ''a.xls'')) ''exposures'' = None \<and>
   own_check demo (filled (PyStr ''a.xls'')) ''impact_funcs'' = None \<and>
   own_check demo (filled (PyStr ''a.xls'')) ''measures'' = None \<and>
   fst (check demo (filled (PyStr ''a.xls''))) = None \<and>
   trace (snd (check demo (filled (PyStr ''a.xls'')))) =
     trace (filled (PyStr ''a.xls'')) @ [CheckCalled 2, CheckCalled 1, CheckCalled 3, CheckCalled 4]"
proof -
  let ?n = "filled (PyStr ''negative.xls'')" and ?a = "filled (PyStr ''a.xls'')"
  have n: "own_check demo ?n ''disc_rates'' = None" "own_check demo ?n ''exposures'' = Some ValueError"
    by (simp_all add: filled_negative own_check_def demo_def)
  have a: "own_check demo ?a ''disc_rates'' = None" "own_check demo ?a ''exposures'' = None"
    "own_check demo ?a ''impact_funcs'' = None" "own_check demo ?a ''measures'' = None"
    by (simp_all add: filled_a own_check_def demo_def)
  have h1: "(1::nat) < 4" by simp
  have h2: "\<forall>j<1. own_check demo ?n (check_order ! j) = None"
    using n by (simp add: check_order_def)
  have h3: "own_check demo ?n (check_order ! 1) = Some ValueError"
    using n by (simp add: check_order_def)
  have h4: "\<forall>j<4. own_check demo ?a (check_order ! j) = None"
    using a by (simp add: check_order_def All_less_Suc eval_nat_numeral)
  have c: "check_calls ?n (take (Suc 1) check_order) = [CheckCalled 2, CheckCalled 1]"
    "check_calls ?a check_order = [CheckCalled 2, CheckCalled 1, CheckCalled 3, CheckCalled 4]"
    by (simp_all add: filled_negative filled_a check_calls_def check_order_def)
  have dn: "distinct (map (attrs ?n) check_order)" and da: "distinct (map (attrs ?a) check_order)"
    by (simp_all add: filled_negative filled_a check_order_def)
  from check_stops_at_first_failure [OF well_typed_filled(2) dn, of demo] h1 h2 h3
  have "fst (check demo ?n) = Some ValueError \<and>
        trace (snd (check demo ?n)) = trace ?n @ check_calls ?n (take (Suc 1) check_order)"
    by blast
  then have r1: "fst (check demo ?n) = Some ValueError"
    "trace (snd (check demo ?n)) = trace ?n @ [CheckCalled 2, CheckCalled 1]"
    by (simp_all only: c)
  from check_stops_at_first_failure [OF well_typed_filled(1) da, of demo] h4
  have "fst (check demo ?a) = None \<and>
        trace (snd (check demo ?a)) = trace ?a @ check_calls ?a check_order"
    by blast
  then have r2: "fst (check demo ?a) = None"
    "trace (snd (check demo ?a)) = trace ?a @ [CheckCalled 2, CheckCalled 1, CheckCalled 3, CheckCalled 4]"
    by (simp_all only: c)
  from well_typed_filled dn da n a r1 r2 show ?thesis
    by (intro conjI)
qed

text \<open>
  The claim as it was stated holds for every Entity. The guard of \<^verbatim>\<open>__setattr__\<close>
  accepts one object of a class that inherits from Exposures and from DiscRates for
  both attributes. With such an Entity and a collection whose check accepts it once,
  the four collections are valid before the call, and \<^verbatim>\<open>check\<close> raises: the object
  checked as discount rates is checked again as exposures.
\<close>

theorem check_stops_at_first_failure_counterexample:
  "fst (setattr ''exposures'' (Ref 0) shared) = None \<and>
   fst (setattr ''disc_rates'' (Ref 0) shared) = None \<and>
   well_typed shared \<and>
   own_check once shared ''disc_rates'' = None \<and>
   own_check once shared ''exposures'' = None \<and>
   own_check once shared ''impact_funcs'' = None \<and>
   own_check once shared ''measures'' = None \<and>
   fst (check once shared) = Some ValueError \<and>
   trace (snd (check once shared)) = [CheckCalled 0, CheckCalled 0]"
  by (simp add: shared_def once_def demo_def well_typed_def holds_def own_check_def
      setattr_def object_setattr_def check_def check_body_def call_check_def)

text \<open>
  Claim C6. For a guarded attribute name and a value that is no instance of the class
  required for it, the assignment raises ValueError and changes neither the instance
  dictionary (the attribute keeps its value, no other attribute is modified) nor the
  store; all it does before raising is to log one error message.
\<close>

theorem setattr_wrong_type_fails:
  assumes "required name = Some c" and "\<not> isinstance (heap s) v c"
  shows "fst (setattr name v s) = Some ValueError \<and>
         attrs (snd (setattr name v s)) = attrs s \<and>
         heap (snd (setattr name v s)) = heap s \<and>
         (\<exists>msg. trace (snd (setattr name v s)) = trace s @ [Logged msg])"
proof -
  from setattr_bad [OF assms] obtain msg
    where "setattr name v s = (Some ValueError, log_error msg s)" ..
  then show ?thesis by (simp add: log_error_def)
qed

text \<open>An instance of the property, on the example collaborator.\<close>

theorem setattr_wrong_type_fails_witness:
  "required ''exposures'' = Some Exposures \<and>
   \<not> isinstance (heap blank) (Ref 0) Exposures \<and>
   fst (setattr ''exposures'' (Ref 0) blank) = Some ValueError \<and>
   attrs (snd (setattr ''exposures'' (Ref 0) blank)) = attrs blank \<and>
   heap (snd (setattr ''exposures'' (Ref 0) blank)) = heap blank"
proof -
  have h1: "required ''exposures'' = Some Exposures" by (simp add: required_def)
  have h2: "\<not> isinstance (heap blank) (Ref 0) Exposures" by (simp add: blank_def)
  from setattr_wrong_type_fails [OF h1 h2] h1 h2 show ?thesis by blast
qed

text \<open>
  Claim C7, as amended. An assignment to an attribute whose name is none of the four
  guarded names is not checked by \<^verbatim>\<open>__setattr__\<close>: it is what \<^verbatim>\<open>object.__setattr__\<close>
  does with the name and the value. For every name that is neither guarded nor one of
  \<^verbatim>\<open>__class__\<close>, \<^verbatim>\<open>__dict__\<close>, \<^verbatim>\<open>__weakref__\<close>, it succeeds for every value and sets the
  entry of the instance dictionary.
\<close>

theorem setattr_unguarded_name:
  assumes "name \<notin> {''exposures'', ''impact_funcs'', ''measures'', ''disc_rates''}"
  shows "setattr name v s = object_setattr name v s \<and>
         (name \<notin> {''__class__'', ''__dict__'', ''__weakref__''} \<longrightarrow>
            setattr name v s = (None, s\<lparr>attrs := (attrs s)(name \<mapsto> v)\<rparr>))"
  using assms by (simp add: setattr_free required_None object_setattr_plain)

text \<open>An instance of the property.\<close>

theorem setattr_unguarded_name_witness:
  "''tag'' \<notin> {''exposures'', ''impact_funcs'', ''measures'', ''disc_rates''} \<and>
   ''tag'' \<notin> {''__class__'', ''__dict__'', ''__weakref__''} \<and>
   setattr ''tag'' (PyInt 3) blank = (None, blank\<lparr>attrs := (attrs blank)(''tag'' \<mapsto> PyInt 3)\<rparr>)"
proof -
  have h: "''tag'' \<notin> {''exposures'', ''impact_funcs'', ''measures'', ''disc_rates''}" by simp
  have g: "''tag'' \<notin> {''__class__'', ''__dict__'', ''__weakref__''}" by simp
  from setattr_unguarded_name [OF h, of "PyInt 3" blank] h g show ?thesis by blast
qed

text \<open>
  The claim as it was stated has the assignment succeed for every other name and every
  value. \<^verbatim>\<open>e.__class__ = 3\<close> and \<^verbatim>\<open>e.__dict__ = 3\<close> pass \<^verbatim>\<open>__setattr__\<close> unchecked and
  raise TypeError in \<^verbatim>\<open>object.__setattr__\<close>; \<^verbatim>\<open>e.__weakref__ = None\<close> raises
  AttributeError.
\<close>

theorem setattr_unguarded_name_counterexample:
  "''__class__'' \<notin> {''exposures'', ''impact_funcs'', ''measures'', ''disc_rates''} \<and>
   setattr ''__class__'' (PyInt 3) blank = (Some TypeError, blank) \<and>
   setattr ''__dict__'' (PyInt 3) blank = (Some TypeError, blank) \<and>
   setattr ''__weakref__'' PyNone blank = (Some AttributeError, blank)"
  by (simp add: setattr_def object_setattr_def)

text \<open>
  Claim C8. \<^verbatim>\<open>read\<close> forwards its arguments unchanged. It goes through the first \<open>k\<close>
  of the four collections, for some \<open>k\<close> from 1 to 4, and through all four when it
  returns. The calls it makes are, for each of them, a constructor without argument and
  then the read of the new object with exactly \<open>file_name\<close> and \<open>description\<close>. Each of
  these attributes refers to a new object whose contents are those that the
  collection's read, applied to \<open>file_name\<close> and \<open>description\<close>, leaves in an empty
  instance. The reads before the last have returned, and what \<^verbatim>\<open>read\<close> returns or
  raises is what the last one returned or raised.
\<close>

theorem read_forwards_arguments:
  "\<exists>k. 1 \<le> k \<and> k \<le> 4 \<and>
       trace (snd (read X file_name description s)) =
         trace s @ take (2 * k) (read_calls (length (heap s)) file_name description) \<and>
       (fst (read X file_name description s) = None \<longrightarrow> k = 4) \<and>
       (\<forall>j<k. holds_new s (snd (read X file_name description s)) (fst (read_order ! j))
                \<lparr>cls = Base (snd (read_order ! j)),
                 data = snd (read_of X (Base (snd (read_order ! j))) (new_empty X (snd (read_order ! j)))
                              file_name description)\<rparr>) \<and>
       (\<forall>j<k - 1. fst (read_of X (Base (snd (read_order ! j))) (new_empty X (snd (read_order ! j)))
                         file_name description) = None) \<and>
       fst (read X file_name description s) =
         fst (read_of X (Base (snd (read_order ! (k - 1)))) (new_empty X (snd (read_order ! (k - 1))))
                file_name description)"
proof (cases "fst (own_read X Exposures file_name description)")
  case (Some e)
  then show ?thesis
    by (intro exI [of _ 1])
      (simp add: read_unfold read_calls_def read_order_def holds_new_def own_read_def)
next
  case r0: None
  show ?thesis
  proof (cases "fst (own_read X DiscRates file_name description)")
    case (Some e)
    with r0 show ?thesis
      by (intro exI [of _ 2])
        (simp add: read_unfold read_calls_def read_order_def holds_new_def own_read_def
          below_cases nth_append)
  next
    case r1: None
    show ?thesis
    proof (cases "fst (own_read X ImpactFuncs file_name description)")
      case (Some e)
      with r0 r1 show ?thesis
        by (intro exI [of _ 3])
          (simp add: read_unfold read_calls_def read_order_def holds_new_def own_read_def
            below_cases nth_append)
    next
      case r2: None
      show ?thesis
      proof (cases "fst (own_read X Measures file_name description)")
        case (Some e)
        with r0 r1 r2 show ?thesis
          by (intro exI [of _ 4])
            (simp add: read_unfold read_calls_def read_order_def holds_new_def own_read_def
              below_cases nth_append)
      next
        case None
        with r0 r1 r2 show ?thesis
          by (intro exI [of _ 4])
            (simp add: read_unfold read_calls_def read_order_def holds_new_def own_read_def
              below_cases nth_append)
      qed
    qed
  qed
qed

text \<open>
  An instance: the read of a valid file with a description; the collections record the
  file name first and the description second.
\<close>

theorem read_forwards_arguments_witness:
  "fst (read demo (PyStr ''a.xls'') (PyStr ''2018'') blank) = None \<and>
   trace (snd (read demo (PyStr ''a.xls'') (PyStr ''2018'') blank)) =
     [Constructed Exposures [], ReadCalled 1 (PyStr ''a.xls'') (PyStr ''2018''),
      Constructed DiscRates [], ReadCalled 2 (PyStr ''a.xls'') (PyStr ''2018''),
      Constructed ImpactFuncs [], ReadCalled 3 (PyStr ''a.xls'') (PyStr ''2018''),
      Constructed Measures [], ReadCalled 4 (PyStr ''a.xls'') (PyStr ''2018'')] \<and>
   holds_new blank (snd (read demo (PyStr ''a.xls'') (PyStr ''2018'') blank)) ''measures''
     \<lparr>cls = Base Measures, data = [PyStr ''a.xls'', PyStr ''2018'']\<rparr>"
proof -
  let ?f = "PyStr ''a.xls''" and ?d = "PyStr ''2018''"
  let ?r = "read demo ?f ?d blank"
  have ok: "fst ?r = None"
    by (simp add: read_unfold own_read_def demo_def)
  from read_forwards_arguments [of demo ?f ?d blank]
  obtain k where k: "1 \<le> k \<and> k \<le> 4 \<and>
       trace (snd ?r) = trace blank @ take (2 * k) (read_calls (length (heap blank)) ?f ?d) \<and>
       (fst ?r = None \<longrightarrow> k = 4) \<and>
       (\<forall>j<k. holds_new blank (snd ?r) (fst (read_order ! j))
                \<lparr>cls = Base (snd (read_order ! j)),
                 data = snd (read_of demo (Base (snd (read_order ! j))) (new_empty demo (snd (read_order ! j))) ?f ?d)\<rparr>) \<and>
       (\<forall>j<k - 1. fst (read_of demo (Base (snd (read_order ! j))) (new_empty demo (snd (read_order ! j))) ?f ?d) = None) \<and>
       fst ?r = fst (read_of demo (Base (snd (read_order ! (k - 1)))) (new_empty demo (snd (read_order ! (k - 1)))) ?f ?d)" ..
  from k have "fst ?r = None \<longrightarrow> k = 4"
    by (elim conjE)
  from this ok have k4: "k = 4" by (rule mp)
  from k have "trace (snd ?r) = trace blank @ take (2 * k) (read_calls (length (heap blank)) ?f ?d)"
    by (elim conjE)
  then have t: "trace (snd ?r) = [Constructed Exposures [], ReadCalled 1 ?f ?d,
      Constructed DiscRates [], ReadCalled 2 ?f ?d,
      Constructed ImpactFuncs [], ReadCalled 3 ?f ?d,
      Constructed Measures [], ReadCalled 4 ?f ?d]"
    unfolding k4 by (simp add: read_calls_def blank_def)
  from k have "\<forall>j<k. holds_new blank (snd ?r) (fst (read_order ! j))
                \<lparr>cls = Base (snd (read_order ! j)),
                 data = snd (read_of demo (Base (snd (read_order ! j))) (new_empty demo (snd (read_order ! j))) ?f ?d)\<rparr>"
    by (elim conjE)
  from this [rule_format, of 3] have m: "holds_new blank (snd ?r) ''measures''
     \<lparr>cls = Base Measures, data = [?f, ?d]\<rparr>"
    unfolding k4 by (simp add: read_order_def demo_def)
  from ok t m show ?thesis
    by (intro conjI)
qed

text \<open>
  Claim C9, as amended. When the read of the \<open>i\<close>-th collection is the first that
  raises, the attribute of that collection refers, when \<^verbatim>\<open>read\<close> aborts, to the
  instance that this call of \<^verbatim>\<open>read\<close> has constructed without argument for it: an
  object that did not exist before the call, of the collection class itself, whose
  contents are those its failed read has left in the empty instance. It is not the
  value the attribute held before the call.
\<close>

theorem read_failure_fresh_instance:
  assumes "i < 4"
    and "\<forall>j<i. fst (own_read X (snd (read_order ! j)) f d) = None"
    and "fst (own_read X (snd (read_order ! i)) f d) = Some e"
  shows "\<exists>a. attrs (snd (read X f d s)) (fst (read_order ! i)) = Some (Ref a) \<and>
             length (heap s) \<le> a \<and> a < length (heap (snd (read X f d s))) \<and>
             heap (snd (read X f d s)) ! a =
               \<lparr>cls = Base (snd (read_order ! i)), data = snd (own_read X (snd (read_order ! i)) f d)\<rparr> \<and>
             (holds s (fst (read_order ! i)) (snd (read_order ! i)) \<longrightarrow>
                attrs (snd (read X f d s)) (fst (read_order ! i)) \<noteq> attrs s (fst (read_order ! i)))"
proof -
  from assms(1) consider "i = 0" | "i = 1" | "i = 2" | "i = 3"
    using below_four by blast
  then show ?thesis
  proof cases
    case 1
    with assms(3) have r: "fst (own_read X Exposures f d) = Some e"
      by (simp add: read_order_def)
    show ?thesis
      unfolding 1
      by (auto simp add: read_unfold r read_order_def holds_def split: option.splits)
  next
    case 2
    from assms(2) [rule_format, of 0] 2 have r0: "fst (own_read X Exposures f d) = None"
      by (simp add: read_order_def)
    from assms(3) 2 have r: "fst (own_read X DiscRates f d) = Some e"
      by (simp add: read_order_def)
    show ?thesis
      unfolding 2
      by (auto simp add: read_unfold r0 r read_order_def holds_def nth_append split: option.splits)
  next
    case 3
    from assms(2) [rule_format, of 0] 3 have r0: "fst (own_read X Exposures f d) = None"
      by (simp add: read_order_def)
    from assms(2) [rule_format, of 1] 3 have r1: "fst (own_read X DiscRates f d) = None"
      by (simp add: read_order_def)
    from assms(3) 3 have r: "fst (own_read X ImpactFuncs f d) = Some e"
      by (simp add: read_order_def)
    show ?thesis
      unfolding 3
      by (auto simp add: read_unfold r0 r1 r read_order_def holds_def nth_append split: option.splits)
  next
    case 4
    from assms(2) [rule_format, of 0] 4 have r0: "fst (own_read X Exposures f d) = None"
      by (simp add: read_order_def)
    from assms(2) [rule_format, of 1] 4 have r1: "fst (own_read X DiscRates f d) = None"
      by (simp add: read_order_def)
    from assms(2) [rule_format, of 2] 4 have r2: "fst (own_read X ImpactFuncs f d) = None"
      by (simp add: read_order_def)
    from assms(3) 4 have r: "fst (own_read X Measures f d) = Some e"
      by (simp add: read_order_def)
    show ?thesis
      unfolding 4
      by (auto simp add: read_unfold r0 r1 r2 r read_order_def holds_def nth_append split: option.splits)
  qed
qed

text \<open>
  An instance: on the Entity built from the default file, the read of a file on which
  the discount rates raise after they have recorded it.
\<close>

theorem read_failure_fresh_instance_witness:
  "fst (own_read demo Exposures (PyStr ''bad_rates.xls'') PyNone) = None \<and>
   fst (own_read demo DiscRates (PyStr ''bad_rates.xls'') PyNone) = Some ValueError \<and>
   holds started ''disc_rates'' DiscRates \<and>
   attrs started ''disc_rates'' = Some (Ref 4) \<and>
   length (heap started) = 5 \<and>
   attrs (snd (read demo (PyStr ''bad_rates.xls'') PyNone started)) ''disc_rates'' = Some (Ref 6) \<and>
   heap (snd (read demo (PyStr ''bad_rates.xls'') PyNone started)) ! 6 =
     \<lparr>cls = Base DiscRates, data = [PyStr ''bad_rates.xls'']\<rparr>"
proof -
  let ?f = "PyStr ''bad_rates.xls''"
  let ?s = "snd (read demo ?f PyNone started)"
  have ok: "fst (own_read demo Exposures ?f PyNone) = None"
    and bad: "fst (own_read demo DiscRates ?f PyNone) = Some ValueError"
    and left: "snd (own_read demo DiscRates ?f PyNone) = [?f]"
    by (simp_all add: own_read_def demo_def)
  have h1: "(1::nat) < 4" by simp
  have h2: "\<forall>j<1. fst (own_read demo (snd (read_order ! j)) ?f PyNone) = None"
    using ok by (simp add: read_order_def)
  have h3: "fst (own_read demo (snd (read_order ! 1)) ?f PyNone) = Some ValueError"
    using bad by (simp add: read_order_def)
  have p: "holds started ''disc_rates'' DiscRates" "attrs started ''disc_rates'' = Some (Ref 4)"
    "length (heap started) = 5"
    by (simp_all add: started_eq holds_def)
  have here: "attrs ?s ''disc_rates'' = Some (Ref 6)"
    by (simp add: read_unfold ok bad p(3))
  have o: "read_order ! Suc 0 = (''disc_rates'', DiscRates)"
    by (simp add: read_order_def)
  from read_failure_fresh_instance [OF h1 h2 h3, of started]
  obtain a where "attrs ?s (fst (read_order ! 1)) = Some (Ref a)"
    and "heap ?s ! a =
           \<lparr>cls = Base (snd (read_order ! 1)), data = snd (own_read demo (snd (read_order ! 1)) ?f PyNone)\<rparr>"
    by (elim exE conjE)
  with here have "heap ?s ! 6 = \<lparr>cls = Base DiscRates, data = [?f]\<rparr>"
    by (simp add: o left)
  with ok bad p here show ?thesis
    by (intro conjI)
qed

text \<open>
  The claim as it was stated has the attribute hold an empty instance when \<^verbatim>\<open>read\<close>
  aborts. On an Entity built from another file, the read of \<^verbatim>\<open>bad_rates.xls\<close> raises in
  the discount rates after they have recorded the file: the instance that
  \<^verbatim>\<open>disc_rates\<close> refers to is new, and it is not empty.
\<close>

theorem read_failure_fresh_instance_counterexample:
  "fst (own_read demo Exposures (PyStr ''bad_rates.xls'') (PyStr ''2019'')) = None \<and>
   fst (own_read demo DiscRates (PyStr ''bad_rates.xls'') (PyStr ''2019'')) = Some ValueError \<and>
   fst (read demo (PyStr ''bad_rates.xls'') (PyStr ''2019'') (filled (PyStr ''a.xls''))) = Some ValueError \<and>
   attrs (snd (read demo (PyStr ''bad_rates.xls'') (PyStr ''2019'') (filled (PyStr ''a.xls'')))) ''disc_rates'' =
     Some (Ref 6) \<and>
   data (heap (snd (read demo (PyStr ''bad_rates.xls'') (PyStr ''2019'') (filled (PyStr ''a.xls'')))) ! 6) =
     [PyStr ''bad_rates.xls''] \<and>
   new_empty demo DiscRates = [] \<and>
   data (heap (snd (read demo (PyStr ''bad_rates.xls'') (PyStr ''2019'') (filled (PyStr ''a.xls'')))) ! 6) \<noteq>
     new_empty demo DiscRates"
proof -
  have r: "fst (own_read demo Exposures (PyStr ''bad_rates.xls'') (PyStr ''2019'')) = None"
    "fst (own_read demo DiscRates (PyStr ''bad_rates.xls'') (PyStr ''2019'')) = Some ValueError"
    "snd (own_read demo DiscRates (PyStr ''bad_rates.xls'') (PyStr ''2019'')) = [PyStr ''bad_rates.xls'']"
    by (simp_all add: own_read_def demo_def)
  have n: "length (heap (filled (PyStr ''a.xls''))) = 5"
    by (simp add: filled_a)
  have e: "new_empty demo DiscRates = []"
    by (simp add: demo_def)
  show ?thesis
    by (simp add: read_unfold r n e nth_append)
qed

text \<open>
  Claim C10. \<^verbatim>\<open>check\<close> assigns no attribute, whether it returns or raises: the instance
  dictionary is the same after it, the objects of the store keep their classes, and the
  only calls it makes are checks of collections.
\<close>

theorem check_assigns_nothing:
  "attrs (snd (check X s)) = attrs s \<and>
   map cls (heap (snd (check X s))) = map cls (heap s) \<and>
   (\<exists>evs. trace (snd (check X s)) = trace s @ evs \<and> (\<forall>ev \<in> set evs. \<exists>a. ev = CheckCalled a))"
proof -
  have "only_checks s (snd (run (check_body X) s))"
  proof (rule run_keeps [where P = "only_checks s"])
    fix st s'
    assume "st \<in> set (check_body X)" and "only_checks s s'"
    then show "only_checks s (snd (st s'))"
      by (auto simp: check_body_def only_checks_call)
  qed (rule only_checks_refl)
  then show ?thesis by (simp add: check_def only_checks_def)
qed

text \<open>An instance of the property, on the example collaborator.\<close>

theorem check_assigns_nothing_witness:
  "attrs (snd (check demo started)) = attrs started \<and>
   attrs (snd (check demo started)) ''exposures'' = Some (Ref 1) \<and>
   map cls (heap (snd (check demo started))) =
     [Derived ''MyMeasures'' [Measures], Base Exposures, Base ImpactFuncs, Base Measures, Base DiscRates]"
proof -
  from check_assigns_nothing [of demo started]
  have a: "attrs (snd (check demo started)) = attrs started"
    and k: "map cls (heap (snd (check demo started))) = map cls (heap started)"
    by blast+
  have "attrs started ''exposures'' = Some (Ref 1)"
    "map cls (heap started) =
       [Derived ''MyMeasures'' [Measures], Base Exposures, Base ImpactFuncs, Base Measures, Base DiscRates]"
    by (simp_all add: started_eq)
  with a k show ?thesis by simp
qed

end
